theory Spec2Isabelle
  imports Complex_Main
begin

section \<open>Shallow embedding of \<open>hvc/audio.py\<close>\<close>

text \<open>
  The module works on numpy arrays of float64 values. Sample values, power values,
  frequencies and times are modelled as \<^typ>\<open>real\<close> (rounding is not modelled), Python
  integers as \<^typ>\<open>int\<close>, array positions produced by numpy as \<^typ>\<open>nat\<close>. Every
  exception of the source is a value of type \<open>error\<close>; a function that can raise
  returns \<open>error + 'a\<close> with \<open>Inl\<close> for the exception.
\<close>

subsection \<open>Exceptions and sequencing\<close>

datatype error =
    IndexError
  | ValueError string
  | ZeroDivisionError
  | OtherError string

text \<open>Statement sequencing: the first exception ends the computation.\<close>

definition ebind :: "'e + 'a \<Rightarrow> ('a \<Rightarrow> 'e + 'b) \<Rightarrow> 'e + 'b" where
  "ebind m f = (case m of Inl e \<Rightarrow> Inl e | Inr x \<Rightarrow> f x)"

text \<open>A list comprehension whose body can raise.\<close>

fun emap :: "('a \<Rightarrow> 'e + 'b) \<Rightarrow> 'a list \<Rightarrow> 'e + 'b list" where
  "emap f [] = Inr []"
| "emap f (x # xs) = ebind (f x) (\<lambda>y. ebind (emap f xs) (\<lambda>ys. Inr (y # ys)))"

subsection \<open>The numpy operations the module uses\<close>

text \<open>\<open>xs[i]\<close> on a Python list, for an index that is not negative.\<close>

definition list_get :: "'a list \<Rightarrow> nat \<Rightarrow> error + 'a" where
  "list_get xs i = (if i < length xs then Inr (xs ! i) else Inl IndexError)"

text \<open>\<open>np.nonzero(mask)\<close> on a 1-d boolean array: the positions holding True, ascending.\<close>

definition nonzero :: "bool list \<Rightarrow> nat list" where
  "nonzero bs = filter (\<lambda>i. bs ! i) [0..<length bs]"

text \<open>
  \<open>a[idx]\<close> for an index array \<open>idx\<close> of positions that are not negative: numpy raises
  IndexError when one of them is out of bounds.
\<close>

definition fancy_index :: "'a list \<Rightarrow> nat list \<Rightarrow> error + 'a list" where
  "fancy_index xs idx =
     (if list_all (\<lambda>i. i < length xs) idx then Inr (map (\<lambda>i. xs ! i) idx)
      else Inl IndexError)"

text \<open>
  \<open>np.convolve(a, v)\<close> in its default mode \<open>full\<close>: entry \<open>k\<close> is the sum of
  \<open>a[j] * v[k - j]\<close> over the positions where both exist; an empty argument raises.
\<close>

definition convolve :: "int list \<Rightarrow> int list \<Rightarrow> error + int list" where
  "convolve a v =
     (if a = [] then Inl (ValueError ''a cannot be empty'')
      else if v = [] then Inl (ValueError ''v cannot be empty'')
      else Inr (map (\<lambda>k. \<Sum>j\<leftarrow>[0..<length a].
                     if j \<le> k \<and> k - j < length v then a ! j * v ! (k - j) else 0)
                  [0..<length a + length v - 1]))"

text \<open>
  \<open>x - y\<close> on 1-d arrays: elementwise on equal lengths, an array of length 1 is
  broadcast, any other pair of shapes raises.
\<close>

definition vsub :: "real list \<Rightarrow> real list \<Rightarrow> error + real list" where
  "vsub xs ys =
     (if length xs = length ys then Inr (map2 (-) xs ys)
      else if length xs = 1 then Inr (map (\<lambda>y. hd xs - y) ys)
      else if length ys = 1 then Inr (map (\<lambda>x. x - hd ys) xs)
      else Inl (ValueError ''operands could not be broadcast together''))"

subsection \<open>\<open>segment_song\<close>\<close>

text \<open>
  The two filtering passes of \<open>segment_song\<close> (source lines 104-108 and 110-114), each
  on the pair of arrays it receives.
\<close>

definition silent_gap_pass :: "real list \<Rightarrow> real list \<Rightarrow> real \<Rightarrow> error + (real list \<times> real list)" where
  "silent_gap_pass onsets offsets min_silent_dur =
     ebind (vsub (drop 1 onsets) (butlast offsets)) (\<lambda>silent_gap_durs.
     let keep_these = nonzero (map (\<lambda>d. d > min_silent_dur) silent_gap_durs) in
     ebind (fancy_index onsets keep_these) (\<lambda>onsets'.
     ebind (fancy_index offsets keep_these) (\<lambda>offsets'.
     Inr (onsets', offsets'))))"

definition syl_dur_pass :: "real list \<Rightarrow> real list \<Rightarrow> real \<Rightarrow> error + (real list \<times> real list)" where
  "syl_dur_pass onsets offsets min_syl_dur =
     ebind (vsub offsets onsets) (\<lambda>syl_durs.
     let keep_these = nonzero (map (\<lambda>d. d > min_syl_dur) syl_durs) in
     ebind (fancy_index onsets keep_these) (\<lambda>onsets'.
     ebind (fancy_index offsets keep_these) (\<lambda>offsets'.
     Inr (onsets', offsets'))))"

definition segment_song ::
  "real list \<Rightarrow> real list \<Rightarrow> real \<Rightarrow> real \<Rightarrow> real \<Rightarrow> error + (real list \<times> real list)" where
  "segment_song amp time_bins threshold min_syl_dur min_silent_dur =
     (let above_th = map (\<lambda>a. a > threshold) amp;
          h = [1, -1] in
      ebind (convolve h (map of_bool above_th)) (\<lambda>above_th_convoluted.
      ebind (fancy_index time_bins (nonzero (map (\<lambda>c. c > 0) above_th_convoluted))) (\<lambda>onsets.
      ebind (fancy_index time_bins (nonzero (map (\<lambda>c. c < 0) above_th_convoluted))) (\<lambda>offsets.
      ebind (silent_gap_pass onsets offsets min_silent_dur) (\<lambda>(onsets, offsets).
      syl_dur_pass onsets offsets min_syl_dur)))))"

subsection \<open>Two-dimensional arrays\<close>

text \<open>
  A 2-d numpy array with its shape: \<open>shape0\<close> rows of \<open>shape1\<close> columns each. The
  shape is kept beside the cells because an array with no row still has a column count.
\<close>

record 'a arr2 =
  shape0 :: nat
  shape1 :: nat
  cells :: "'a list list"

definition wf_arr :: "'a arr2 \<Rightarrow> bool" where
  "wf_arr A = (length (cells A) = shape0 A \<and> list_all (\<lambda>r. length r = shape1 A) (cells A))"

text \<open>\<open>A[idx, :]\<close> for an index array of row positions.\<close>

definition take_rows :: "'a arr2 \<Rightarrow> nat list \<Rightarrow> error + 'a arr2" where
  "take_rows A idx =
     (if list_all (\<lambda>i. i < shape0 A) idx
      then Inr \<lparr>shape0 = length idx, shape1 = shape1 A, cells = map (\<lambda>i. cells A ! i) idx\<rparr>
      else Inl IndexError)"

definition map_arr :: "('a \<Rightarrow> 'b) \<Rightarrow> 'a arr2 \<Rightarrow> 'b arr2" where
  "map_arr f A = \<lparr>shape0 = shape0 A, shape1 = shape1 A, cells = map (map f) (cells A)\<rparr>"

definition flipud :: "'a arr2 \<Rightarrow> 'a arr2" where
  "flipud A = \<lparr>shape0 = shape0 A, shape1 = shape1 A, cells = rev (cells A)\<rparr>"

text \<open>
  A Python slice bound on an axis of length \<open>n\<close>: a negative bound counts from the end,
  and the result is clipped to \<open>0..n\<close>. A slice never raises.
\<close>

definition slice_index :: "nat \<Rightarrow> int \<Rightarrow> nat" where
  "slice_index n i = (if i < 0 then nat (max (i + int n) 0) else min (nat i) n)"

definition py_slice :: "'a list \<Rightarrow> int \<Rightarrow> int \<Rightarrow> 'a list" where
  "py_slice xs a b =
     (let lo = slice_index (length xs) a; hi = slice_index (length xs) b
      in take (hi - lo) (drop lo xs))"

text \<open>\<open>A[:, a:b]\<close>.\<close>

definition slice_cols :: "'a arr2 \<Rightarrow> int \<Rightarrow> int \<Rightarrow> 'a arr2" where
  "slice_cols A a b =
     \<lparr>shape0 = shape0 A,
      shape1 = slice_index (shape1 A) b - slice_index (shape1 A) a,
      cells = map (\<lambda>r. py_slice r a b) (cells A)\<rparr>"

subsection \<open>\<open>make_spect\<close>\<close>

text \<open>
  The result of \<open>np.log10\<close> on a finite value: numpy returns \<open>-inf\<close> at zero and \<open>nan\<close>
  below zero, and only warns (its default error state); it does not raise.
\<close>

datatype float64 = Finite real | NegInf | NaN

definition log10 :: "real \<Rightarrow> float64" where
  "log10 x = (if x > 0 then Finite (log 10 x) else if x = 0 then NegInf else NaN)"

text \<open>The class \<open>song_spect\<close>.\<close>

record song_spect =
  spect :: "float64 arr2"
  freqBins :: "real list"
  timeBins :: "real list"
  sampFreq :: int

text \<open>
  The functions the module imports: \<open>slepian\<close> and \<open>spectrogram\<close> of scipy.signal, and
  \<open>load_cbin\<close> and \<open>load_notmat\<close> of \<open>hvc.evfuncs\<close>. They are parameters of the model.
  \<open>spectrogram\<close> is called as
  \<open>spectrogram(waveform, sampfreq, window=..., nperseg=..., noverlap=...)\<close> and returns
  the frequency axis, the time axis and the power grid.
\<close>

record notmat =
  nm_labels :: string
  nm_onsets :: "real list"
  nm_offsets :: "real list"

record externals =
  slepian :: "int \<Rightarrow> real \<Rightarrow> error + real list"
  spectrogram :: "real list \<Rightarrow> int \<Rightarrow> real list \<Rightarrow> nat \<Rightarrow> int \<Rightarrow>
                  error + (real list \<times> real list \<times> real arr2)"
  load_cbin :: "string \<Rightarrow> error + (real list \<times> int)"
  load_notmat :: "string \<Rightarrow> error + notmat"

definition make_spect ::
  "externals \<Rightarrow> real list \<Rightarrow> int \<Rightarrow> int \<Rightarrow> int \<Rightarrow> real list \<Rightarrow> error + song_spect" where
  "make_spect ext waveform sampfreq size' step freq_cutoffs =
     (if size' = 0 then Inl ZeroDivisionError
      else
      ebind (slepian ext size' (4 / of_int size')) (\<lambda>win_dpss.
      let fft_overlap = size' - step in
      ebind (spectrogram ext waveform sampfreq win_dpss (length win_dpss) fft_overlap)
        (\<lambda>(freq_bins, time_bins, grid).
      ebind (list_get freq_cutoffs 0) (\<lambda>lo.
      ebind (list_get freq_cutoffs 1) (\<lambda>hi.
      let f_inds = nonzero (map (\<lambda>f. f \<ge> lo \<and> f < hi) freq_bins) in
      ebind (fancy_index freq_bins f_inds) (\<lambda>freq_bins'.
      ebind (take_rows grid f_inds) (\<lambda>grid'.
      let grid'' = map_arr log10 grid' in
      Inr \<lparr>spect = flipud grid'', freqBins = rev freq_bins', timeBins = time_bins,
           sampFreq = sampfreq\<rparr>)))))))"

subsection \<open>\<open>extract_syls\<close>\<close>

text \<open>\<open>np.argmin\<close> on a 1-d array: the first position of the least value.\<close>

fun argmin_from :: "real list \<Rightarrow> nat \<Rightarrow> nat \<Rightarrow> real \<Rightarrow> nat" where
  "argmin_from [] i best v = best"
| "argmin_from (x # xs) i best v =
     (if x < v then argmin_from xs (Suc i) i x else argmin_from xs (Suc i) best v)"

definition argmin :: "real list \<Rightarrow> error + nat" where
  "argmin xs =
     (case xs of
        [] \<Rightarrow> Inl (ValueError ''attempt to get argmin of an empty sequence'')
      | x # rest \<Rightarrow> Inr (argmin_from rest 1 0 x))"

text \<open>Python 3's \<open>round\<close> on a float: to the nearest integer, a tie to the even one.\<close>

definition py_round :: "real \<Rightarrow> int" where
  "py_round x =
     (let f = \<lfloor>x\<rfloor>; d = x - of_int f
      in if d < 1 / 2 then f else if d > 1 / 2 then f + 1 else if even f then f else f + 1)"

text \<open>
  The argument \<open>labels_to_use\<close>: a Python string, or a list of strings. The dictionary
  \<open>spect_params\<close> with its four keys.
\<close>

datatype labels_arg = PyStr string | PyList "string list"

record spect_params =
  window_size :: int
  window_step :: int
  freq_cutoffs :: "real list"
  samp_freq :: int

text \<open>\<open>label in labels_to_use\<close> for a label of one character.\<close>

fun label_in :: "char \<Rightarrow> labels_arg \<Rightarrow> bool" where
  "label_in c (PyStr s) = (c \<in> set s)"
| "label_in c (PyList xs) = ([c] \<in> set xs)"

text \<open>
  The body of the loop after the label test (source lines 186-201), for a segment with
  onset column \<open>on\<close> and offset column \<open>off\<close>.
\<close>

definition syl_width_diff :: "'a arr2 \<Rightarrow> int \<Rightarrow> int \<Rightarrow> int \<Rightarrow> int" where
  "syl_width_diff S on off syl_spect_width =
     (let temp_syl_spect = slice_cols S on off
      in syl_spect_width - int (shape1 temp_syl_spect))"

definition centre_widths :: "int \<Rightarrow> int \<times> int" where
  "centre_widths width_diff =
     (let left_width = py_round (of_int width_diff / 2);
          right_width = width_diff - left_width
      in (left_width, right_width))"

definition clamp_widths :: "'a arr2 \<Rightarrow> int \<Rightarrow> int \<Rightarrow> int \<Rightarrow> int \<times> int \<Rightarrow> int \<times> int" where
  "clamp_widths S on off width_diff lr =
     (case lr of (left_width, right_width) \<Rightarrow>
        if left_width > on then (on, width_diff - on)
        else if off + right_width > int (shape1 S)
        then (width_diff - (int (shape1 S) - off), int (shape1 S) - off)
        else (left_width, right_width))"

definition extract_syl :: "'a arr2 \<Rightarrow> int \<Rightarrow> int \<Rightarrow> int \<Rightarrow> 'a arr2" where
  "extract_syl S on off syl_spect_width =
     (let width_diff = syl_width_diff S on off syl_spect_width in
      case clamp_widths S on off width_diff (centre_widths width_diff) of
        (left_width, right_width) \<Rightarrow> slice_cols S (on - left_width) (off + right_width))"

text \<open>
  The loop over \<open>enumerate(labels)\<close>. The result lists are in the order of the
  iterations that reach the two \<open>append\<close> calls.
\<close>

fun syl_loop ::
  "'a arr2 \<Rightarrow> nat list \<Rightarrow> nat list \<Rightarrow> labels_arg \<Rightarrow> int \<Rightarrow> (nat \<times> char) list \<Rightarrow>
     error + ('a arr2 list \<times> char option list)" where
  "syl_loop S ons offs labels_to_use w [] = Inr ([], [])"
| "syl_loop S ons offs labels_to_use w ((ind, label) # rest) =
     (let verdict =
        (if labels_to_use = PyStr ''all'' then Some None
         else if \<not> label_in label labels_to_use then None
         else Some (Some label))
      in case verdict of
           None \<Rightarrow> syl_loop S ons offs labels_to_use w rest
         | Some label' \<Rightarrow>
             ebind (list_get ons ind) (\<lambda>on.
             ebind (list_get offs ind) (\<lambda>off.
             ebind (syl_loop S ons offs labels_to_use w rest) (\<lambda>(all_syl_spects, all_syl_labels).
             Inr (extract_syl S (int on) (int off) w # all_syl_spects,
                  label' # all_syl_labels)))))"

text \<open>
  In the first statement of \<open>extract_syls\<close> a string other than \<open>'all'\<close> becomes the list
  of its characters; for any other argument the source builds a \<open>ValueError\<close> and drops
  it, so the argument stays as it is.
\<close>

definition normalise_labels :: "labels_arg \<Rightarrow> labels_arg" where
  "normalise_labels labels_to_use =
     (if labels_to_use \<noteq> PyStr ''all''
      then (case labels_to_use of
              PyStr s \<Rightarrow> PyList (map (\<lambda>c. [c]) s)
            | PyList xs \<Rightarrow> PyList xs)
      else labels_to_use)"

definition extract_syls ::
  "externals \<Rightarrow> string \<Rightarrow> spect_params \<Rightarrow> labels_arg \<Rightarrow> int \<Rightarrow>
     error + (float64 arr2 list \<times> char option list)" where
  "extract_syls ext cbin params labels_to_use syl_spect_width =
     (let labels_to_use' = normalise_labels labels_to_use in
      ebind (load_cbin ext cbin) (\<lambda>(dat, fs).
      if fs \<noteq> samp_freq params
      then Inl (ValueError ''Sampling frequency does not match expected sampling frequency'')
      else
      ebind (load_cbin ext cbin) (\<lambda>(dat, fs).
      ebind (make_spect ext dat fs (window_size params) (window_step params)
               (freq_cutoffs params)) (\<lambda>spect_obj.
      let time_bins = timeBins spect_obj in
      ebind (load_notmat ext cbin) (\<lambda>notmat.
      let labels = nm_labels notmat;
          onsets = map (\<lambda>t. t / 1000) (nm_onsets notmat);
          offsets = map (\<lambda>t. t / 1000) (nm_offsets notmat) in
      ebind (emap (\<lambda>onset. argmin (map (\<lambda>t. \<bar>t - onset\<bar>) time_bins)) onsets)
        (\<lambda>onsets_time_bins.
      ebind (emap (\<lambda>offset. argmin (map (\<lambda>t. \<bar>t - offset\<bar>) time_bins)) offsets)
        (\<lambda>offsets_time_bins.
      syl_loop (spect spect_obj) onsets_time_bins offsets_time_bins labels_to_use'
        syl_spect_width (enumerate 0 labels))))))))"

subsection \<open>Edges of the thresholded sequence\<close>

text \<open>
  Auxiliary notions for the proofs about \<open>segment_song\<close>. Entry \<open>k\<close> of the
  convolution of \<open>[1, -1]\<close> with the 0/1 sequence \<open>bs\<close> is \<open>edge bs k\<close>; the rising
  edges are the positions where it is positive, the falling edges those where it is
  negative.
\<close>

definition edge :: "bool list \<Rightarrow> nat \<Rightarrow> int" where
  "edge bs k = (if k < length bs \<and> bs ! k then 1 else 0)
             - (if 0 < k \<and> k \<le> length bs \<and> bs ! (k - 1) then 1 else 0)"

definition rising :: "bool list \<Rightarrow> nat list" where
  "rising bs = filter (\<lambda>k. 0 < edge bs k) [0..<Suc (length bs)]"

definition falling :: "bool list \<Rightarrow> nat list" where
  "falling bs = filter (\<lambda>k. edge bs k < 0) [0..<Suc (length bs)]"

subsection \<open>Notions used in the statements\<close>

text \<open>
  The positions of the frequency axis that \<open>make_spect\<close> keeps for a pair of cutoffs.
\<close>

definition retained :: "real list \<Rightarrow> real list \<Rightarrow> nat list" where
  "retained cutoffs raw_f =
     filter (\<lambda>i. cutoffs ! 0 \<le> raw_f ! i \<and> raw_f ! i < cutoffs ! 1) [0..<length raw_f]"

text \<open>
  Whether the loop of \<open>extract_syls\<close> extracts a segment with label \<open>c\<close>, and the label
  it reports for it.
\<close>

definition selected :: "labels_arg \<Rightarrow> char \<Rightarrow> bool" where
  "selected labels_to_use c = (if labels_to_use = PyStr ''all'' then True else label_in c labels_to_use)"

definition out_label :: "labels_arg \<Rightarrow> char \<Rightarrow> char option" where
  "out_label labels_to_use c = (if labels_to_use = PyStr ''all'' then None else Some c)"

text \<open>
  The centring rule as the specification words it (section 4.4, steps 3 to 5), on the
  onset and offset columns, the target width and the column count of the spectrogram.
\<close>

definition spec_widths :: "int \<Rightarrow> int \<Rightarrow> int \<Rightarrow> int \<Rightarrow> int \<times> int" where
  "spec_widths columnCount onsetIndex offsetIndex syl_spect_width =
     (let width_diff = syl_spect_width - (offsetIndex - onsetIndex);
          left_width = py_round (of_int width_diff / 2);
          right_width = width_diff - left_width
      in if left_width > onsetIndex then (onsetIndex, width_diff - onsetIndex)
         else if offsetIndex + right_width > columnCount
         then (width_diff - (columnCount - offsetIndex), columnCount - offsetIndex)
         else (left_width, right_width))"

subsection \<open>A small recording\<close>

text \<open>
  Concrete inputs for the examples: a recording sampled at 8000 Hz, analysed with a
  window of 8 samples and a step of 4. \<open>stub_externals fs\<close> stands for the imported
  functions on this recording: the decoder reports the sampling frequency \<open>fs\<close>, the
  spectral estimate has five frequency rows (0 to 4000 Hz) and six time columns, one
  power value is zero, and the label file holds three segments labelled a, x and b.
  \<open>stub_song\<close> is what \<open>make_spect\<close> returns for the band from 1000 Hz to 4000 Hz.
\<close>

definition stub_wave :: "real list" where
  "stub_wave = [0, 3, -2, 5, 1, -4, 2, 0, 0, 0, 0, 0, 0, 0, 0, 0, 1, -1, 2, -2, 3, -3, 1, 0, 2, 1, 0, -1]"

definition stub_freqs :: "real list" where
  "stub_freqs = [0, 1000, 2000, 3000, 4000]"

definition stub_times :: "real list" where
  "stub_times = [0.0005, 0.001, 0.0015, 0.002, 0.0025, 0.003]"

definition stub_grid :: "real arr2" where
  "stub_grid = \<lparr>shape0 = 5, shape1 = 6,
                 cells = [[1, 1, 1, 1, 1, 1],
                          [1, 10, 10, 1, 10, 1],
                          [10, 1, 0, 10, 1, 10],
                          [1, 1, 10, 10, 1, 1],
                          [1, 1, 1, 1, 1, 1]]\<rparr>"

definition stub_notmat :: notmat where
  "stub_notmat = \<lparr>nm_labels = ''axb'', nm_onsets = [0.5, 1.5, 2.5], nm_offsets = [1, 2, 3]\<rparr>"

definition stub_externals :: "int \<Rightarrow> externals" where
  "stub_externals fs =
     \<lparr>slepian = (\<lambda>n w. Inr (replicate (nat n) 1)),
      spectrogram = (\<lambda>waveform sampfreq window nperseg noverlap.
                       Inr (stub_freqs, stub_times, stub_grid)),
      load_cbin = (\<lambda>cbin. Inr (stub_wave, fs)),
      load_notmat = (\<lambda>cbin. Inr stub_notmat)\<rparr>"

definition stub_spect :: "float64 arr2" where
  "stub_spect = \<lparr>shape0 = 3, shape1 = 6,
                  cells = [[Finite 0, Finite 0, Finite 1, Finite 1, Finite 0, Finite 0],
                           [Finite 1, Finite 0, NegInf, Finite 1, Finite 0, Finite 1],
                           [Finite 0, Finite 1, Finite 1, Finite 0, Finite 1, Finite 0]]\<rparr>"

definition stub_song :: song_spect where
  "stub_song = \<lparr>spect = stub_spect, freqBins = [3000, 2000, 1000], timeBins = stub_times,
                  sampFreq = 8000\<rparr>"

definition stub_params :: spect_params where
  "stub_params = \<lparr>window_size = 8, window_step = 4, freq_cutoffs = [1000, 4000],
                   samp_freq = 8000\<rparr>"

text \<open>
  The three windows of width 3 around the segments a, x and b of the small recording:
  columns 0 to 2, 1 to 3 and 3 to 5 of \<open>stub_spect\<close>.
\<close>

definition stub_window_a :: "float64 arr2" where
  "stub_window_a = \<lparr>shape0 = 3, shape1 = 3,
                     cells = [[Finite 0, Finite 0, Finite 1],
                              [Finite 1, Finite 0, NegInf],
                              [Finite 0, Finite 1, Finite 1]]\<rparr>"

definition stub_window_x :: "float64 arr2" where
  "stub_window_x = \<lparr>shape0 = 3, shape1 = 3,
                     cells = [[Finite 0, Finite 1, Finite 1],
                              [Finite 0, NegInf, Finite 1],
                              [Finite 1, Finite 1, Finite 0]]\<rparr>"

definition stub_window_b :: "float64 arr2" where
  "stub_window_b = \<lparr>shape0 = 3, shape1 = 3,
                     cells = [[Finite 1, Finite 0, Finite 0],
                              [Finite 1, Finite 0, Finite 1],
                              [Finite 0, Finite 1, Finite 0]]\<rparr>"

section \<open>Properties\<close>

subsection \<open>Sequencing and indexing\<close>

lemma ebind_Inr_iff: "ebind m f = Inr y \<longleftrightarrow> (\<exists>x. m = Inr x \<and> f x = Inr y)"
  by (cases m) (simp_all add: ebind_def)

lemma ebind_Inl_iff: "ebind m f = Inl e \<longleftrightarrow> m = Inl e \<or> (\<exists>x. m = Inr x \<and> f x = Inl e)"
  by (cases m) (simp_all add: ebind_def)

lemma ebind_Inr: "ebind (Inr x) f = f x"
  by (simp add: ebind_def)

lemma ebind_Inl: "ebind (Inl e) f = Inl e"
  by (simp add: ebind_def)

lemma fancy_index_Inr_iff:
  "fancy_index xs idx = Inr ys \<longleftrightarrow> (\<forall>i\<in>set idx. i < length xs) \<and> ys = map ((!) xs) idx"
  by (auto simp: fancy_index_def list_all_iff)

lemma nonzero_map: "nonzero (map P xs) = filter (\<lambda>i. P (xs ! i)) [0..<length xs]"
  by (auto simp: nonzero_def intro: filter_cong)

lemma strict_sorted_nth_mono:
  fixes xs :: "'a::linorder list"
  assumes "sorted_wrt (<) xs" "i \<le> j" "j < length xs"
  shows "xs ! i \<le> xs ! j"
proof (cases "i = j")
  case True
  then show ?thesis by simp
next
  case False
  then have "i < j" using assms(2) by simp
  from sorted_wrt_nth_less [OF assms(1) this assms(3)] show ?thesis by simp
qed

lemma filter_upt_nth:
  "j < length (filter P [0..<N]) \<Longrightarrow>
     P (filter P [0..<N] ! j) \<and> filter P [0..<N] ! j < N
     \<and> length (filter P [0..<filter P [0..<N] ! j]) = j"
proof (induction N)
  case 0
  then show ?case by simp
next
  case (Suc N)
  show ?case
  proof (cases "j < length (filter P [0..<N])")
    case True
    then show ?thesis using Suc.IH by (simp add: nth_append less_Suc_eq)
  next
    case False
    then show ?thesis using Suc.prems by (auto simp: nth_append split: if_splits)
  qed
qed

lemma filter_upt_count_mono:
  assumes "a \<le> b"
  shows "length (filter P [0..<a]) \<le> length (filter P [0..<b])"
proof -
  have "[0..<b] = [0..<a] @ [a..<b]"
    using assms by (metis le_add_diff_inverse upt_add_eq_append zero_le)
  then show ?thesis by simp
qed

subsection \<open>\<open>segment_song\<close>: edges and the two passes\<close>

lemma convolve_edges:
  assumes "bs \<noteq> []"
  shows "convolve [1, -1] (map of_bool bs) = Inr (map (edge bs) [0..<Suc (length bs)])"
proof -
  have one: "(\<Sum>j\<leftarrow>[0..<Suc (Suc 0)].
           if j \<le> k \<and> k - j < length bs then [1, -1] ! j * map of_bool bs ! (k - j) else 0)
        = edge bs k" if "k \<le> length bs" for k
    using that by (cases k) (auto simp: edge_def)
  have "map (\<lambda>k. \<Sum>j\<leftarrow>[0..<Suc (Suc 0)].
           if j \<le> k \<and> k - j < length bs then [1, -1] ! j * map of_bool bs ! (k - j) else 0)
          [0..<Suc (length bs)] = map (edge bs) [0..<Suc (length bs)]"
    by (rule map_cong [OF refl]) (simp only: one atLeastLessThan_iff set_upt less_Suc_eq_le)
  then show ?thesis
    using assms by (simp only: convolve_def length_map list.size One_nat_def add_Suc add_0
        diff_Suc_1 list.simps if_False map_is_Nil_conv add_Suc_right add_0_right Nat.add_0_right diff_Suc_Suc diff_zero)
qed

lemma nonzero_edges:
  "nonzero (map P (map (edge bs) [0..<N])) = filter (\<lambda>k. P (edge bs k)) [0..<N]"
  unfolding nonzero_map by (rule filter_cong) auto

lemma edge_count:
  "k \<le> Suc (length bs) \<Longrightarrow>
     int (length (filter (\<lambda>i. 0 < edge bs i) [0..<k]))
       - int (length (filter (\<lambda>i. edge bs i < 0) [0..<k]))
     = (if 0 < k \<and> k \<le> length bs \<and> bs ! (k - 1) then 1 else 0)"
proof (induction k)
  case 0
  then show ?case by simp
next
  case (Suc k)
  define A where "A = (k < length bs \<and> bs ! k)"
  define B where "B = (0 < k \<and> k \<le> length bs \<and> bs ! (k - 1))"
  have e: "edge bs k = of_bool A - of_bool B"
    by (simp add: edge_def A_def B_def)
  have "k \<le> Suc (length bs)" using Suc.prems by simp
  from Suc.IH [OF this]
  have IH: "int (length (filter (\<lambda>i. 0 < edge bs i) [0..<k]))
       - int (length (filter (\<lambda>i. edge bs i < 0) [0..<k])) = of_bool B"
    by (simp add: B_def)
  have rhs: "(0 < Suc k \<and> Suc k \<le> length bs \<and> bs ! (Suc k - 1)) = A"
    by (auto simp: A_def)
  show ?case
    unfolding rhs using IH e by (cases A; cases B) simp_all
qed

lemma rising_before_falling:
  assumes jR: "j < length (filter (\<lambda>k. 0 < edge bs k) [0..<Suc (length bs)])"
      and jF: "j < length (filter (\<lambda>k. edge bs k < 0) [0..<Suc (length bs)])"
  shows "filter (\<lambda>k. 0 < edge bs k) [0..<Suc (length bs)] ! j
       < filter (\<lambda>k. edge bs k < 0) [0..<Suc (length bs)] ! j"
proof (rule ccontr)
  define r where "r = filter (\<lambda>k. 0 < edge bs k) [0..<Suc (length bs)] ! j"
  define f where "f = filter (\<lambda>k. edge bs k < 0) [0..<Suc (length bs)] ! j"
  assume "\<not> ?thesis"
  then have fr: "f \<le> r" by (simp add: r_def f_def)
  from filter_upt_nth [OF jR]
  have r: "0 < edge bs r" "r < Suc (length bs)"
    "length (filter (\<lambda>k. 0 < edge bs k) [0..<r]) = j"
    by (simp_all add: r_def)
  from filter_upt_nth [OF jF]
  have f: "edge bs f < 0" "f < Suc (length bs)"
    "length (filter (\<lambda>k. edge bs k < 0) [0..<f]) = j"
    by (simp_all add: f_def)
  from r(1) f(1) have "f \<noteq> r" by auto
  with fr have "Suc f \<le> r" by simp
  from filter_upt_count_mono [OF this, of "\<lambda>k. edge bs k < 0"] f
  have "Suc j \<le> length (filter (\<lambda>k. edge bs k < 0) [0..<r])" by simp
  moreover have "r \<le> Suc (length bs)" using r(2) by simp
  from edge_count [OF this] r(3)
  have "0 \<le> int j - int (length (filter (\<lambda>k. edge bs k < 0) [0..<r]))"
    by (simp split: if_splits)
  ultimately show False by simp
qed

lemma rising_falling_length:
  "length (filter (\<lambda>k. 0 < edge bs k) [0..<Suc (length bs)])
   = length (filter (\<lambda>k. edge bs k < 0) [0..<Suc (length bs)])"
  using edge_count [of "Suc (length bs)" bs] by simp

lemma segment_song_unfold:
  assumes "amp \<noteq> []"
  shows "segment_song amp tb th msd mgd =
     ebind (fancy_index tb (rising (map (\<lambda>a. a > th) amp))) (\<lambda>ons.
     ebind (fancy_index tb (falling (map (\<lambda>a. a > th) amp))) (\<lambda>offs.
     ebind (silent_gap_pass ons offs mgd) (\<lambda>(ons, offs). syl_dur_pass ons offs msd)))"
proof -
  have "map (\<lambda>a. a > th) amp \<noteq> []" using assms by simp
  from convolve_edges [OF this]
  have c: "convolve [1, -1] (map of_bool (map (\<lambda>a. a > th) amp))
         = Inr (map (edge (map (\<lambda>a. a > th) amp)) [0..<Suc (length (map (\<lambda>a. a > th) amp))])" .
  show ?thesis
    unfolding segment_song_def Let_def c ebind_Inr nonzero_edges rising_def falling_def
    by (rule refl)
qed

lemma segment_song_empty: "segment_song [] tb th msd mgd = Inl (ValueError ''v cannot be empty'')"
  by (simp add: segment_song_def convolve_def ebind_def)

lemma rising_lt: "k \<in> set (rising bs) \<Longrightarrow> k < length bs"
  by (auto simp: rising_def edge_def split: if_splits)

lemma falling_last:
  assumes "bs \<noteq> []" "last bs"
  shows "length bs \<in> set (falling bs)"
proof -
  have "bs ! (length bs - 1)" using assms by (simp add: last_conv_nth)
  then have "edge bs (length bs) < 0" using assms by (simp add: edge_def)
  then show ?thesis by (simp add: falling_def)
qed

lemma sorted_rising: "sorted_wrt (<) (rising bs)"
  unfolding rising_def by (rule sorted_wrt_filter) (rule sorted_wrt_upt)

lemma vsub_same_length: "length xs = length ys \<Longrightarrow> vsub xs ys = Inr (map2 (-) xs ys)"
  by (simp add: vsub_def)

lemma silent_gap_pass_eq:
  assumes len: "length ons = length offs"
  shows "silent_gap_pass ons offs g =
     Inr (map ((!) ons) (filter (\<lambda>i. ons ! Suc i - offs ! i > g) [0..<length ons - 1]),
          map ((!) offs) (filter (\<lambda>i. ons ! Suc i - offs ! i > g) [0..<length ons - 1]))"
proof -
  let ?K = "filter (\<lambda>i. ons ! Suc i - offs ! i > g) [0..<length ons - 1]"
  have v: "vsub (drop 1 ons) (butlast offs) = Inr (map2 (-) (drop 1 ons) (butlast offs))"
    using len by (simp add: vsub_same_length)
  have "nonzero (map (\<lambda>d. d > g) (map2 (-) (drop 1 ons) (butlast offs))) = ?K"
    unfolding nonzero_map using len
    by (auto intro!: filter_cong simp: nth_butlast)
  moreover have "\<forall>i\<in>set ?K. i < length ons" by auto
  then have "fancy_index ons ?K = Inr (map ((!) ons) ?K)"
    by (simp add: fancy_index_Inr_iff)
  moreover have "\<forall>i\<in>set ?K. i < length offs" using len by auto
  then have "fancy_index offs ?K = Inr (map ((!) offs) ?K)"
    by (simp add: fancy_index_Inr_iff)
  ultimately show ?thesis
    unfolding silent_gap_pass_def Let_def v by (simp add: ebind_def)
qed

lemma syl_dur_pass_eq:
  assumes len: "length ons = length offs"
  shows "syl_dur_pass ons offs d =
     Inr (map ((!) ons) (filter (\<lambda>i. offs ! i - ons ! i > d) [0..<length ons]),
          map ((!) offs) (filter (\<lambda>i. offs ! i - ons ! i > d) [0..<length ons]))"
proof -
  let ?K = "filter (\<lambda>i. offs ! i - ons ! i > d) [0..<length ons]"
  have v: "vsub offs ons = Inr (map2 (-) offs ons)"
    using len by (simp add: vsub_same_length)
  have "nonzero (map (\<lambda>x. x > d) (map2 (-) offs ons)) = ?K"
    unfolding nonzero_map using len
    by (auto intro!: filter_cong)
  moreover have "\<forall>i\<in>set ?K. i < length ons" by auto
  then have "fancy_index ons ?K = Inr (map ((!) ons) ?K)"
    by (simp add: fancy_index_Inr_iff)
  moreover have "\<forall>i\<in>set ?K. i < length offs" using len by auto
  then have "fancy_index offs ?K = Inr (map ((!) offs) ?K)"
    by (simp add: fancy_index_Inr_iff)
  ultimately show ?thesis
    unfolding syl_dur_pass_def Let_def v by (simp add: ebind_def)
qed

subsection \<open>Claims about \<open>segment_song\<close>\<close>

text \<open>
  Claim C1 (the gap-merging step removes exactly the boundary pairs
  \<open>(offsets[i], onsets[i+1])\<close> of the too-short gaps, so that the neighbouring segments
  appear merged, and removes no other segment). The source's comment gives the same
  intent (``get rid of silent intervals that are shorter than min_silent_dur''), but the
  keep-mask, computed over the gaps, is applied to the segments: by
  \<open>silent_gap_pass_eq\<close> the step keeps segment \<open>i\<close> exactly when it is not the last one and the
  gap after it is longer than \<open>min_silent_dur\<close>. The theorem evaluates the code: a lone
  segment, with no gap at all, is removed; of three segments whose first gap is too
  short, the first and the last are removed instead of the first two being merged; and
  \<open>segment_song\<close> with its default parameters returns nothing on a recording with one
  syllable of 30 ms.
\<close>

theorem silent_gap_pass_removes_segments:
  "silent_gap_pass [0.01] [0.04] 0.002 = Inr ([], [])
   \<and> silent_gap_pass [0.01, 0.05, 0.14] [0.04, 0.09, 0.17] 0.02 = Inr ([0.05], [0.09])
   \<and> segment_song [0, 6000, 6000, 6000, 0] [0, 0.01, 0.02, 0.03, 0.04] 5000 0.02 0.002
       = Inr ([], [])"
  by code_simp

text \<open>
  Claim C4 (invariants of every output of \<open>segment_song\<close>): whenever \<open>segment_song\<close>
  returns \<open>(onsets, offsets)\<close> for strictly increasing time bins, the two arrays have the
  same length, every offset is later than its onset, every segment is longer than
  \<open>min_syl_dur\<close>, and every onset after the first is more than \<open>min_silent_dur\<close> later than
  the offset before it.
\<close>

theorem segment_song_output_invariants:
  assumes res: "segment_song amp time_bins threshold min_syl_dur min_silent_dur = Inr (onsets, offsets)"
      and tb: "sorted_wrt (<) time_bins"
  shows "length onsets = length offsets
       \<and> (\<forall>i<length onsets. offsets ! i > onsets ! i \<and> offsets ! i - onsets ! i > min_syl_dur)
       \<and> (\<forall>i<length onsets. 0 < i \<longrightarrow> onsets ! i - offsets ! (i - 1) > min_silent_dur)"
proof -
  let ?bs = "map (\<lambda>a. a > threshold) amp"
  define R where "R = rising ?bs"
  define F where "F = falling ?bs"
  have ne: "amp \<noteq> []" using res by (auto simp: segment_song_empty)
  have lenRF: "length R = length F"
    unfolding R_def F_def rising_def falling_def by (rule rising_falling_length)
  from res [unfolded segment_song_unfold [OF ne]]
  obtain ons0 offs0 ons1 offs1 where
    a: "fancy_index time_bins R = Inr ons0" and b: "fancy_index time_bins F = Inr offs0"
    and c: "silent_gap_pass ons0 offs0 min_silent_dur = Inr (ons1, offs1)"
    and d: "syl_dur_pass ons1 offs1 min_syl_dur = Inr (onsets, offsets)"
    by (auto simp: ebind_Inr_iff R_def F_def)
  from a have ons0: "ons0 = map ((!) time_bins) R"
    by (simp add: fancy_index_Inr_iff)
  from b have Flt: "\<forall>k\<in>set F. k < length time_bins" and offs0: "offs0 = map ((!) time_bins) F"
    by (simp_all add: fancy_index_Inr_iff)
  have len0: "length ons0 = length offs0" using lenRF ons0 offs0 by simp
  define K1 where "K1 = filter (\<lambda>i. ons0 ! Suc i - offs0 ! i > min_silent_dur) [0..<length ons0 - 1]"
  from c silent_gap_pass_eq [OF len0, of min_silent_dur]
  have ons1: "ons1 = map ((!) ons0) K1" and offs1: "offs1 = map ((!) offs0) K1"
    by (simp_all add: K1_def)
  have len1: "length ons1 = length offs1" using ons1 offs1 by simp
  define K2 where "K2 = filter (\<lambda>i. offs1 ! i - ons1 ! i > min_syl_dur) [0..<length ons1]"
  from d syl_dur_pass_eq [OF len1, of min_syl_dur]
  have onsets: "onsets = map ((!) ons1) K2" and offsets: "offsets = map ((!) offs1) K2"
    by (simp_all add: K2_def)
  have sK1: "sorted_wrt (<) K1"
    unfolding K1_def by (intro sorted_wrt_filter sorted_wrt_upt)
  have sK2: "sorted_wrt (<) K2"
    unfolding K2_def by (intro sorted_wrt_filter sorted_wrt_upt)
  have K1set: "Suc p < length R \<and> ons0 ! Suc p - offs0 ! p > min_silent_dur" if "p \<in> set K1" for p
    using that unfolding K1_def ons0 by auto
  have K2set: "q < length K1 \<and> offs1 ! q - ons1 ! q > min_syl_dur" if "q \<in> set K2" for q
    using that unfolding K2_def ons1 by auto
  have sR: "sorted_wrt (<) R" unfolding R_def by (rule sorted_rising)
  have Fnth: "F ! p < length time_bins" if "p < length R" for p
    using that Flt lenRF by simp
  have RF: "R ! p < F ! p" if "p < length R" for p
    using that lenRF rising_before_falling [of p ?bs]
    by (simp add: R_def F_def rising_def falling_def)
  have seg: "time_bins ! (R ! p) < time_bins ! (F ! p)" if "p < length R" for p
    using sorted_wrt_nth_less [OF tb RF [OF that] Fnth [OF that]] .
  have final: "K1 ! (K2 ! i) \<in> set K1 \<and> K2 ! i \<in> set K2
      \<and> onsets ! i = time_bins ! (R ! (K1 ! (K2 ! i)))
      \<and> offsets ! i = time_bins ! (F ! (K1 ! (K2 ! i)))
      \<and> onsets ! i = ons1 ! (K2 ! i) \<and> offsets ! i = offs1 ! (K2 ! i)
      \<and> onsets ! i = ons0 ! (K1 ! (K2 ! i)) \<and> offsets ! i = offs0 ! (K1 ! (K2 ! i))"
    if "i < length K2" for i
  proof -
    have q: "K2 ! i \<in> set K2" using that by simp
    from K2set [OF q] have ql: "K2 ! i < length K1" by simp
    then have p: "K1 ! (K2 ! i) \<in> set K1" by simp
    from K1set [OF p] have pl: "K1 ! (K2 ! i) < length R" by simp
    then have pl': "K1 ! (K2 ! i) < length F" using lenRF by simp
    show ?thesis
      using that q ql p pl pl' by (simp add: onsets offsets ons1 offs1 ons0 offs0)
  qed
  have part1: "length onsets = length offsets" using onsets offsets by simp
  have part2: "offsets ! i > onsets ! i \<and> offsets ! i - onsets ! i > min_syl_dur"
    if "i < length onsets" for i
  proof -
    have i: "i < length K2" using that onsets by simp
    note f = final [OF i]
    from f K1set [of "K1 ! (K2 ! i)"] have "K1 ! (K2 ! i) < length R" by simp
    from seg [OF this] f have "offsets ! i > onsets ! i" by simp
    moreover from f K2set [of "K2 ! i"] have "offsets ! i - onsets ! i > min_syl_dur" by simp
    ultimately show ?thesis by simp
  qed
  have part3: "onsets ! i - offsets ! (i - 1) > min_silent_dur"
    if "i < length onsets" "0 < i" for i
  proof -
    have i: "i < length K2" using that onsets by simp
    then have i': "i - 1 < length K2" by simp
    note f = final [OF i] and f' = final [OF i']
    have "i - 1 < i" using that by simp
    from sorted_wrt_nth_less [OF sK2 this i] have qq: "K2 ! (i - 1) < K2 ! i" .
    from f K2set [of "K2 ! i"] have "K2 ! i < length K1" by simp
    from sorted_wrt_nth_less [OF sK1 qq this]
    have pp: "Suc (K1 ! (K2 ! (i - 1))) \<le> K1 ! (K2 ! i)" by simp
    from f K1set [of "K1 ! (K2 ! i)"] have pl: "K1 ! (K2 ! i) < length R" by simp
    from strict_sorted_nth_mono [OF sR pp pl]
    have rr: "R ! Suc (K1 ! (K2 ! (i - 1))) \<le> R ! (K1 ! (K2 ! i))" .
    have "R ! (K1 ! (K2 ! i)) < length time_bins"
      using RF [OF pl] Fnth [OF pl] by simp
    from strict_sorted_nth_mono [OF tb rr this]
    have "time_bins ! (R ! Suc (K1 ! (K2 ! (i - 1)))) \<le> time_bins ! (R ! (K1 ! (K2 ! i)))" .
    moreover have "Suc (K1 ! (K2 ! (i - 1))) < length R" using pp pl by simp
    ultimately have "ons0 ! Suc (K1 ! (K2 ! (i - 1))) \<le> onsets ! i"
      using f by (simp add: ons0)
    moreover from f' K1set [of "K1 ! (K2 ! (i - 1))"]
    have "ons0 ! Suc (K1 ! (K2 ! (i - 1))) - offsets ! (i - 1) > min_silent_dur" by simp
    ultimately show ?thesis by simp
  qed
  from part1 part2 part3 show ?thesis by blast
qed

theorem segment_song_output_invariants_witness:
  "segment_song [0, 6000, 6000, 6000, 0, 0, 6000, 6000, 6000, 0, 0, 0, 0, 0, 6000, 6000, 6000, 0]
      [0, 0.01, 0.02, 0.03, 0.04, 0.05, 0.06, 0.07, 0.08, 0.09, 0.10, 0.11, 0.12, 0.13, 0.14,
       0.15, 0.16, 0.17] 5000 0.02 0.002
     = Inr ([0.01, 0.06], [0.04, 0.09])
   \<and> sorted_wrt (<) [0, 0.01, 0.02, 0.03, 0.04, 0.05, 0.06, 0.07, 0.08, 0.09, 0.10, 0.11, 0.12,
       0.13, 0.14, 0.15, 0.16, 0.17 :: real]
   \<and> length [0.01, 0.06 :: real] = length [0.04, 0.09 :: real]
   \<and> [0.04, 0.09 :: real] ! 1 > [0.01, 0.06] ! 1
   \<and> [0.04, 0.09 :: real] ! 1 - [0.01, 0.06] ! 1 > 0.02
   \<and> [0.01, 0.06 :: real] ! 1 - [0.04, 0.09] ! (1 - 1) > 0.002"
proof -
  have r: "segment_song
      [0, 6000, 6000, 6000, 0, 0, 6000, 6000, 6000, 0, 0, 0, 0, 0, 6000, 6000, 6000, 0]
      [0, 0.01, 0.02, 0.03, 0.04, 0.05, 0.06, 0.07, 0.08, 0.09, 0.10, 0.11, 0.12, 0.13, 0.14,
       0.15, 0.16, 0.17] 5000 0.02 0.002
     = Inr ([0.01, 0.06], [0.04, 0.09])"
    by code_simp
  have s: "sorted_wrt (<) [0, 0.01, 0.02, 0.03, 0.04, 0.05, 0.06, 0.07, 0.08, 0.09, 0.10, 0.11,
       0.12, 0.13, 0.14, 0.15, 0.16, 0.17 :: real]"
    by simp
  from segment_song_output_invariants [OF r s] r s show ?thesis
    by simp
qed

text \<open>
  Claim C6 (a recording that ends above the threshold): when the last amplitude exceeds
  the threshold and \<open>time_bins\<close> has the length of \<open>amp\<close>, the convolution marks a falling
  edge at position \<open>len(amp)\<close>, and indexing \<open>time_bins\<close> there raises IndexError.
\<close>

theorem segment_song_last_above_threshold:
  assumes "amp \<noteq> []" and "last amp > threshold" and "length time_bins = length amp"
  shows "segment_song amp time_bins threshold min_syl_dur min_silent_dur = Inl IndexError"
proof -
  let ?bs = "map (\<lambda>a. a > threshold) amp"
  have "\<forall>k\<in>set (rising ?bs). k < length time_bins"
    using rising_lt [of _ ?bs] assms(3) by simp
  then have on: "fancy_index time_bins (rising ?bs) = Inr (map ((!) time_bins) (rising ?bs))"
    by (simp add: fancy_index_Inr_iff)
  have "last ?bs" using assms(1,2) by (simp add: last_map)
  with falling_last [of ?bs] assms(1) have "length amp \<in> set (falling ?bs)" by simp
  then have "\<not> list_all (\<lambda>i. i < length time_bins) (falling ?bs)"
    using assms(3) by (auto simp: list_all_iff)
  then have off: "fancy_index time_bins (falling ?bs) = Inl IndexError"
    by (simp add: fancy_index_def)
  show ?thesis
    unfolding segment_song_unfold [OF assms(1)] on off by (simp add: ebind_def)
qed

theorem segment_song_last_above_threshold_witness:
  "[0, 6000, 6000 :: real] \<noteq> [] \<and> last [0, 6000, 6000 :: real] > 5000
   \<and> length [0, 0.001, 0.002 :: real] = length [0, 6000, 6000 :: real]
   \<and> segment_song [0, 6000, 6000] [0, 0.001, 0.002] 5000 0.02 0.002 = Inl IndexError"
  using segment_song_last_above_threshold [of "[0, 6000, 6000]" 5000 "[0, 0.001, 0.002]" "0.02" "0.002"]
  by simp

subsection \<open>\<open>make_spect\<close>: the result\<close>

lemma list_get_Inr_iff: "list_get xs i = Inr x \<longleftrightarrow> i < length xs \<and> x = xs ! i"
  by (auto simp: list_get_def)

lemma take_rows_Inr_iff:
  "take_rows A idx = Inr B \<longleftrightarrow>
     (\<forall>i\<in>set idx. i < shape0 A)
     \<and> B = \<lparr>shape0 = length idx, shape1 = shape1 A, cells = map ((!) (cells A)) idx\<rparr>"
  by (auto simp: take_rows_def list_all_iff)

lemma make_spect_Inr:
  assumes ms: "make_spect ext waveform sampfreq size' step cutoffs = Inr out"
      and sl: "slepian ext size' (4 / of_int size') = Inr win"
      and sp: "spectrogram ext waveform sampfreq win (length win) (size' - step)
                 = Inr (raw_f, raw_t, grid)"
  shows "2 \<le> length cutoffs
     \<and> (\<forall>i\<in>set (retained cutoffs raw_f). i < shape0 grid)
     \<and> out = \<lparr>spect = \<lparr>shape0 = length (retained cutoffs raw_f), shape1 = shape1 grid,
                        cells = rev (map (\<lambda>i. map log10 (cells grid ! i))
                                      (retained cutoffs raw_f))\<rparr>,
              freqBins = rev (map ((!) raw_f) (retained cutoffs raw_f)),
              timeBins = raw_t, sampFreq = sampfreq\<rparr>"
proof -
  have nz: "size' \<noteq> 0" using ms by (auto simp: make_spect_def)
  from ms obtain lo hi fb g where
    lo: "list_get cutoffs 0 = Inr lo" and hi: "list_get cutoffs 1 = Inr hi"
    and fb: "fancy_index raw_f (nonzero (map (\<lambda>f. f \<ge> lo \<and> f < hi) raw_f)) = Inr fb"
    and g: "take_rows grid (nonzero (map (\<lambda>f. f \<ge> lo \<and> f < hi) raw_f)) = Inr g"
    and out: "out = \<lparr>spect = flipud (map_arr log10 g), freqBins = rev fb, timeBins = raw_t,
                     sampFreq = sampfreq\<rparr>"
    unfolding make_spect_def Let_def using nz sl sp
    by (auto simp: ebind_Inr_iff)
  from lo hi have len: "2 \<le> length cutoffs" and lo': "lo = cutoffs ! 0"
    and hi': "hi = cutoffs ! 1"
    by (auto simp: list_get_Inr_iff)
  have idx: "nonzero (map (\<lambda>f. f \<ge> lo \<and> f < hi) raw_f) = retained cutoffs raw_f"
    by (simp add: nonzero_map retained_def lo' hi')
  from fb have fb': "fb = map ((!) raw_f) (retained cutoffs raw_f)"
    by (simp add: idx fancy_index_Inr_iff)
  from g have g1: "\<forall>i\<in>set (retained cutoffs raw_f). i < shape0 grid"
    and g2: "g = \<lparr>shape0 = length (retained cutoffs raw_f), shape1 = shape1 grid,
                  cells = map ((!) (cells grid)) (retained cutoffs raw_f)\<rparr>"
    by (simp_all add: idx take_rows_Inr_iff)
  show ?thesis
    using len g1 by (simp add: out fb' g2 flipud_def map_arr_def rev_map)
qed

lemma sorted_retained: "sorted_wrt (<) (retained cutoffs raw_f)"
  unfolding retained_def by (intro sorted_wrt_filter sorted_wrt_upt)

lemma retained_lt: "i \<in> set (retained cutoffs raw_f) \<Longrightarrow> i < length raw_f"
  by (simp add: retained_def)

lemma map_nth_retained:
  "map ((!) raw_f) (retained cutoffs raw_f)
     = filter (\<lambda>f. cutoffs ! 0 \<le> f \<and> f < cutoffs ! 1) raw_f"
proof -
  have "filter (\<lambda>f. cutoffs ! 0 \<le> f \<and> f < cutoffs ! 1) (map ((!) raw_f) [0..<length raw_f])
      = map ((!) raw_f) (retained cutoffs raw_f)"
    unfolding retained_def filter_map by (simp add: comp_def)
  then show ?thesis by (simp add: map_nth)
qed

lemma strictly_decreasing_hd_Max:
  fixes xs :: "real list"
  assumes "sorted_wrt (\<lambda>a b. a > b) xs" "xs \<noteq> []"
  shows "hd xs = Max (set xs)"
proof -
  obtain y ys where xs: "xs = y # ys" using assms(2) by (cases xs) auto
  with assms(1) have "\<forall>z\<in>set ys. z < y" by simp
  then have "Max (set (y # ys)) = y"
    by (intro Max_eqI) (auto simp: less_imp_le)
  then show ?thesis by (simp add: xs)
qed

lemma make_spect_stub:
  "make_spect (stub_externals fs) stub_wave 8000 8 4 [1000, 4000] = Inr stub_song"
  by (simp add: make_spect_def stub_externals_def stub_freqs_def stub_grid_def stub_song_def
      stub_spect_def ebind_def list_get_def nonzero_def fancy_index_def take_rows_def
      map_arr_def flipud_def log10_def)

lemma stub_slepian:
  "slepian (stub_externals fs) 8 (4 / of_int 8) = Inr (replicate 8 1)"
  by (simp add: stub_externals_def)

lemma stub_spectrogram:
  "spectrogram (stub_externals fs) stub_wave 8000 (replicate 8 1)
     (length (replicate 8 (1::real))) (8 - 4) = Inr (stub_freqs, stub_times, stub_grid)"
  by (simp add: stub_externals_def)

lemma stub_shape: "shape0 stub_grid = length stub_freqs" "shape1 stub_grid = length stub_times"
  by (simp_all add: stub_grid_def stub_freqs_def stub_times_def)

lemma stub_freqs_sorted: "sorted_wrt (<) stub_freqs"
  by (simp add: stub_freqs_def)

subsection \<open>Claims about \<open>make_spect\<close>\<close>

text \<open>
  Claim C9 (band filter and shapes): when \<open>make_spect\<close> returns, and the spectral
  estimate has one grid row per frequency and one grid column per time, the returned
  frequencies are exactly the estimated frequencies \<open>f\<close> with
  \<open>freq_cutoffs[0] \<le> f < freq_cutoffs[1]\<close>, the returned rows are the log-transformed
  grid rows at the same positions, the number of \<open>freq_bins\<close> is the row count and the
  number of \<open>time_bins\<close> is the column count of the returned spectrogram.
\<close>

theorem make_spect_band_and_shapes:
  assumes ms: "make_spect ext waveform sampfreq size' step cutoffs = Inr out"
      and sl: "slepian ext size' (4 / of_int size') = Inr win"
      and sp: "spectrogram ext waveform sampfreq win (length win) (size' - step)
                 = Inr (raw_f, raw_t, grid)"
      and shape: "shape0 grid = length raw_f" "shape1 grid = length raw_t"
  shows "set (freqBins out) = {f \<in> set raw_f. cutoffs ! 0 \<le> f \<and> f < cutoffs ! 1}
       \<and> freqBins out = rev (map ((!) raw_f) (retained cutoffs raw_f))
       \<and> cells (spect out)
           = rev (map (\<lambda>i. map log10 (cells grid ! i)) (retained cutoffs raw_f))
       \<and> length (freqBins out) = shape0 (spect out)
       \<and> length (timeBins out) = shape1 (spect out)
       \<and> (wf_arr grid \<longrightarrow> wf_arr (spect out))"
proof -
  note c = make_spect_Inr [OF ms sl sp]
  then have out: "out = \<lparr>spect = \<lparr>shape0 = length (retained cutoffs raw_f), shape1 = shape1 grid,
                        cells = rev (map (\<lambda>i. map log10 (cells grid ! i))
                                      (retained cutoffs raw_f))\<rparr>,
              freqBins = rev (map ((!) raw_f) (retained cutoffs raw_f)),
              timeBins = raw_t, sampFreq = sampfreq\<rparr>"
    by simp
  have s: "set (freqBins out) = {f \<in> set raw_f. cutoffs ! 0 \<le> f \<and> f < cutoffs ! 1}"
    unfolding out by (simp add: map_nth_retained)
  have w: "wf_arr (spect out)" if "wf_arr grid"
  proof -
    have "length (cells grid ! i) = shape1 grid" if "i \<in> set (retained cutoffs raw_f)" for i
    proof -
      have "i < length (cells grid)"
        using retained_lt [OF that] shape(1) \<open>wf_arr grid\<close> by (simp add: wf_arr_def)
      then have "cells grid ! i \<in> set (cells grid)" by simp
      then show ?thesis using \<open>wf_arr grid\<close> by (simp add: wf_arr_def list_all_iff)
    qed
    then show ?thesis unfolding out by (simp add: wf_arr_def list_all_iff)
  qed
  show ?thesis
    using s w shape by (simp add: out)
qed

theorem make_spect_band_and_shapes_witness:
  "make_spect (stub_externals 8000) stub_wave 8000 8 4 [1000, 4000] = Inr stub_song
   \<and> shape0 stub_grid = length stub_freqs \<and> shape1 stub_grid = length stub_times
   \<and> set (freqBins stub_song) = {f \<in> set stub_freqs. 1000 \<le> f \<and> f < 4000}
   \<and> length (freqBins stub_song) = shape0 (spect stub_song)
   \<and> length (timeBins stub_song) = shape1 (spect stub_song)"
proof -
  note t = make_spect_band_and_shapes [OF make_spect_stub [of 8000] stub_slepian [of 8000]
      stub_spectrogram [of 8000] stub_shape, simplified]
  from t make_spect_stub [of 8000] stub_shape show ?thesis by blast
qed

text \<open>
  Claim C2 (the returned \<open>freq_bins\<close> are strictly increasing and row 0 is the lowest
  retained frequency) fails: on the small recording the frequency axis comes back as
  3000, 2000, 1000, and row 0 belongs to the highest retained frequency.
\<close>

theorem make_spect_freq_bins_increasing_counterexample:
  "make_spect (stub_externals 8000) stub_wave 8000 8 4 [1000, 4000] = Inr stub_song
   \<and> sorted_wrt (<) stub_freqs
   \<and> freqBins stub_song = [3000, 2000, 1000]
   \<and> \<not> sorted_wrt (<) (freqBins stub_song)
   \<and> hd (freqBins stub_song) = Max (set (freqBins stub_song))
   \<and> hd (freqBins stub_song) \<noteq> Min (set (freqBins stub_song))"
  using make_spect_stub [of 8000] by (simp add: stub_song_def stub_freqs_def)

text \<open>
  Claim C2 as amended: for a strictly increasing frequency axis of the spectral estimate,
  the \<open>freq_bins\<close> returned by \<open>make_spect\<close> are strictly decreasing, so row 0 of the
  returned spectrogram corresponds to the highest retained frequency; the filtered grid
  and the frequency axis are reversed together, each returned row staying paired with
  its frequency. This is the flip the docstring of \<open>make_spect\<close> announces.
\<close>

theorem make_spect_freq_bins_decreasing:
  assumes ms: "make_spect ext waveform sampfreq size' step cutoffs = Inr out"
      and sl: "slepian ext size' (4 / of_int size') = Inr win"
      and sp: "spectrogram ext waveform sampfreq win (length win) (size' - step)
                 = Inr (raw_f, raw_t, grid)"
      and inc: "sorted_wrt (<) raw_f"
  shows "sorted_wrt (\<lambda>a b. a > b) (freqBins out)
       \<and> (freqBins out \<noteq> [] \<longrightarrow> hd (freqBins out) = Max (set (freqBins out)))
       \<and> zip (freqBins out) (cells (spect out))
           = rev (map (\<lambda>i. (raw_f ! i, map log10 (cells grid ! i))) (retained cutoffs raw_f))"
proof -
  note c = make_spect_Inr [OF ms sl sp]
  then have fb: "freqBins out = rev (map ((!) raw_f) (retained cutoffs raw_f))"
    and ce: "cells (spect out)
           = rev (map (\<lambda>i. map log10 (cells grid ! i)) (retained cutoffs raw_f))"
    by simp_all
  have "sorted_wrt (<) (filter (\<lambda>f. cutoffs ! 0 \<le> f \<and> f < cutoffs ! 1) raw_f)"
    using inc by (rule sorted_wrt_filter)
  then have d: "sorted_wrt (\<lambda>a b. a > b) (freqBins out)"
    unfolding fb map_nth_retained by (simp add: sorted_wrt_rev)
  have z: "zip (freqBins out) (cells (spect out))
           = rev (map (\<lambda>i. (raw_f ! i, map log10 (cells grid ! i))) (retained cutoffs raw_f))"
    unfolding fb ce by (simp add: zip_rev zip_map_map rev_map [symmetric] zip_same_conv_map)
  show ?thesis
    using d z strictly_decreasing_hd_Max [OF d] by simp
qed

theorem make_spect_freq_bins_decreasing_witness:
  "make_spect (stub_externals 8000) stub_wave 8000 8 4 [1000, 4000] = Inr stub_song
   \<and> sorted_wrt (<) stub_freqs
   \<and> sorted_wrt (\<lambda>a b. a > b) (freqBins stub_song)
   \<and> hd (freqBins stub_song) = Max (set (freqBins stub_song))"
  using make_spect_freq_bins_decreasing [OF make_spect_stub [of 8000] stub_slepian [of 8000]
      stub_spectrogram [of 8000] stub_freqs_sorted]
    make_spect_stub [of 8000] stub_freqs_sorted
  by (simp add: stub_song_def)

text \<open>
  Claim C5 (a zero or negative power value makes \<open>make_spect\<close> fail) does not hold:
  on the small recording a retained power value is zero, and \<open>make_spect\<close> returns a
  spectrogram holding \<open>-inf\<close> at that place.
\<close>

theorem make_spect_zero_power_counterexample:
  "make_spect (stub_externals 8000) stub_wave 8000 8 4 [1000, 4000] = Inr stub_song
   \<and> cells stub_grid ! 2 ! 2 = 0
   \<and> cells (spect stub_song) ! 1 ! 2 = NegInf"
  using make_spect_stub [of 8000] by (simp add: stub_song_def stub_grid_def stub_spect_def)

text \<open>
  Claim C5 as amended: a zero or negative retained power value raises no error in
  \<open>make_spect\<close>. Whenever the window size is not zero, the imported functions return,
  \<open>freq_cutoffs\<close> has two elements and the grid has one row per frequency,
  \<open>make_spect\<close> returns a result; its cells are the \<open>log10\<close> of the retained power
  values, where \<open>log10\<close> gives \<open>-inf\<close> exactly at zero and \<open>nan\<close> exactly below zero. The
  value is neither clamped nor masked, and nothing is raised.
\<close>

theorem make_spect_nonpositive_power:
  assumes nz: "size' \<noteq> 0"
      and sl: "slepian ext size' (4 / of_int size') = Inr win"
      and sp: "spectrogram ext waveform sampfreq win (length win) (size' - step)
                 = Inr (raw_f, raw_t, grid)"
      and len: "2 \<le> length cutoffs"
      and shape: "shape0 grid = length raw_f"
  shows "(\<exists>out. make_spect ext waveform sampfreq size' step cutoffs = Inr out
            \<and> cells (spect out)
                = rev (map (\<lambda>i. map log10 (cells grid ! i)) (retained cutoffs raw_f)))
       \<and> (\<forall>x. (log10 x = NegInf) = (x = 0)) \<and> (\<forall>x. (log10 x = NaN) = (x < 0))"
proof -
  let ?P = "\<lambda>f. cutoffs ! 0 \<le> f \<and> f < cutoffs ! 1"
  have idx: "nonzero (map ?P raw_f) = retained cutoffs raw_f"
    by (simp add: nonzero_map retained_def)
  have a: "fancy_index raw_f (retained cutoffs raw_f) = Inr (map ((!) raw_f) (retained cutoffs raw_f))"
    using retained_lt [of _ cutoffs raw_f] by (simp add: fancy_index_Inr_iff)
  have b: "take_rows grid (retained cutoffs raw_f)
         = Inr \<lparr>shape0 = length (retained cutoffs raw_f), shape1 = shape1 grid,
                cells = map ((!) (cells grid)) (retained cutoffs raw_f)\<rparr>"
    using retained_lt [of _ cutoffs raw_f] shape by (simp add: take_rows_Inr_iff)
  have l: "list_get cutoffs 0 = Inr (cutoffs ! 0)" "list_get cutoffs 1 = Inr (cutoffs ! 1)"
    using len by (auto simp: list_get_def)
  have "make_spect ext waveform sampfreq size' step cutoffs
      = Inr \<lparr>spect = flipud (map_arr log10
                 \<lparr>shape0 = length (retained cutoffs raw_f), shape1 = shape1 grid,
                  cells = map ((!) (cells grid)) (retained cutoffs raw_f)\<rparr>),
             freqBins = rev (map ((!) raw_f) (retained cutoffs raw_f)), timeBins = raw_t,
             sampFreq = sampfreq\<rparr>"
    unfolding make_spect_def Let_def using nz
    by (simp add: sl sp l ebind_Inr idx a b del: One_nat_def)
  then have "\<exists>out. make_spect ext waveform sampfreq size' step cutoffs = Inr out
            \<and> cells (spect out)
                = rev (map (\<lambda>i. map log10 (cells grid ! i)) (retained cutoffs raw_f))"
    by (simp add: flipud_def map_arr_def rev_map)
  moreover have "\<forall>x. (log10 x = NegInf) = (x = 0)" by (simp add: log10_def)
  moreover have "\<forall>x. (log10 x = NaN) = (x < 0)" by (auto simp: log10_def)
  ultimately show ?thesis by blast
qed

theorem make_spect_nonpositive_power_witness:
  "(8::int) \<noteq> 0 \<and> 2 \<le> length [1000, 4000 :: real] \<and> shape0 stub_grid = length stub_freqs
   \<and> (\<exists>out. make_spect (stub_externals 8000) stub_wave 8000 8 4 [1000, 4000] = Inr out
          \<and> cells (spect out) ! 1 ! 2 = NegInf)
   \<and> log10 0 = NegInf \<and> log10 (- 1) = NaN"
proof -
  have nz: "(8::int) \<noteq> 0" by simp
  have len: "2 \<le> length [1000, 4000 :: real]" by simp
  from make_spect_nonpositive_power [OF nz stub_slepian [of 8000] stub_spectrogram [of 8000]
      len stub_shape(1)]
  obtain out where o: "make_spect (stub_externals 8000) stub_wave 8000 8 4 [1000, 4000] = Inr out"
    and z: "log10 0 = NegInf" and n: "log10 (- 1) = NaN"
    by auto
  from o make_spect_stub [of 8000] have "out = stub_song" by simp
  then have "cells (spect out) ! 1 ! 2 = NegInf"
    by (simp add: stub_song_def stub_spect_def)
  with o z n nz len stub_shape(1) show ?thesis by blast
qed

subsection \<open>\<open>extract_syls\<close>: slices, the loop and the result\<close>

lemma slice_index_nonneg: "0 \<le> i \<Longrightarrow> i \<le> int n \<Longrightarrow> slice_index n i = nat i"
  by (simp add: slice_index_def)

lemma slice_cols_shape1:
  assumes "0 \<le> a" "a \<le> b" "b \<le> int (shape1 S)"
  shows "int (shape1 (slice_cols S a b)) = b - a"
  using assms by (simp add: slice_cols_def slice_index_nonneg)

lemma slice_cols_wf:
  assumes "0 \<le> a" "a \<le> b" "b \<le> int (shape1 S)" "wf_arr S"
  shows "wf_arr (slice_cols S a b)"
proof -
  have "length (py_slice r a b) = nat b - nat a" if "r \<in> set (cells S)" for r
  proof -
    have "length r = shape1 S" using that assms(4) by (simp add: wf_arr_def list_all_iff)
    then show ?thesis
      using assms(1-3) by (simp add: py_slice_def Let_def slice_index_nonneg)
  qed
  then show ?thesis
    using assms by (simp add: wf_arr_def list_all_iff slice_cols_def slice_index_nonneg)
qed

lemma emap_total:
  "(\<And>x. x \<in> set xs \<Longrightarrow> \<exists>y. f x = Inr y) \<Longrightarrow> \<exists>ys. emap f xs = Inr ys \<and> length ys = length xs"
proof (induction xs)
  case Nil
  then show ?case by simp
next
  case (Cons x xs)
  from Cons.prems [of x] obtain y where y: "f x = Inr y" by auto
  from Cons.IH Cons.prems obtain ys where ys: "emap f xs = Inr ys" "length ys = length xs"
    by auto
  show ?case by (simp add: y ys ebind_Inr)
qed

lemma emap_length: "emap f xs = Inr ys \<Longrightarrow> length ys = length xs"
  by (induction xs arbitrary: ys) (auto simp: ebind_Inr_iff)

lemma argmin_total: "xs \<noteq> [] \<Longrightarrow> \<exists>i. argmin xs = Inr i"
  by (cases xs) (simp_all add: argmin_def)

lemma syl_loop_Inr:
  "syl_loop S ons offs ltu w xs = Inr (spects, labs) \<Longrightarrow>
     labs = map (\<lambda>(ind, l). out_label ltu l) (filter (\<lambda>(ind, l). selected ltu l) xs)
     \<and> spects = map (\<lambda>(ind, l). extract_syl S (int (ons ! ind)) (int (offs ! ind)) w)
                  (filter (\<lambda>(ind, l). selected ltu l) xs)"
proof (induction xs arbitrary: spects labs)
  case Nil
  then show ?case by simp
next
  case (Cons x xs)
  obtain ind l where x: "x = (ind, l)" by (cases x)
  show ?case
  proof (cases "selected ltu l")
    case False
    then have "syl_loop S ons offs ltu w (x # xs) = syl_loop S ons offs ltu w xs"
      by (simp add: x selected_def split: if_splits)
    with Cons.prems have "syl_loop S ons offs ltu w xs = Inr (spects, labs)" by simp
    from Cons.IH [OF this] False show ?thesis by (simp add: x)
  next
    case True
    then have "syl_loop S ons offs ltu w (x # xs) =
             ebind (list_get ons ind) (\<lambda>on.
             ebind (list_get offs ind) (\<lambda>off.
             ebind (syl_loop S ons offs ltu w xs) (\<lambda>(all_syl_spects, all_syl_labels).
             Inr (extract_syl S (int on) (int off) w # all_syl_spects,
                  out_label ltu l # all_syl_labels))))"
      by (simp add: x selected_def out_label_def split: if_splits)
    with Cons.prems obtain ss ls where
      on: "ind < length ons" and off: "ind < length offs"
      and rest: "syl_loop S ons offs ltu w xs = Inr (ss, ls)"
      and sp: "spects = extract_syl S (int (ons ! ind)) (int (offs ! ind)) w # ss"
      and lb: "labs = out_label ltu l # ls"
      by (auto simp: ebind_Inr_iff list_get_Inr_iff)
    from Cons.IH [OF rest] True show ?thesis by (simp add: x sp lb)
  qed
qed

lemma syl_loop_total:
  "(\<And>ind l. (ind, l) \<in> set xs \<Longrightarrow> ind < length ons \<and> ind < length offs) \<Longrightarrow>
     \<exists>r. syl_loop S ons offs ltu w xs = Inr r"
proof (induction xs)
  case Nil
  then show ?case by simp
next
  case (Cons x xs)
  obtain ind l where x: "x = (ind, l)" by (cases x)
  from Cons.IH Cons.prems obtain ss ls where rest: "syl_loop S ons offs ltu w xs = Inr (ss, ls)"
    by fastforce
  from Cons.prems [of ind l] have "ind < length ons" "ind < length offs" by (simp_all add: x)
  then show ?case
    by (simp add: x rest list_get_def ebind_Inr Let_def split: option.splits)
qed

lemma filter_enumerate_snd:
  "map (\<lambda>(ind, l). g l) (filter (\<lambda>(ind, l). P l) (enumerate n xs)) = map g (filter P xs)"
  by (induction xs arbitrary: n) auto

lemma label_in_chars: "label_in c (PyList (map (\<lambda>c. [c]) s)) = (c \<in> set s)"
  by auto

lemma stub_spect_shape1: "shape1 stub_spect = 6"
  by (simp add: stub_spect_def)

lemma stub_load_cbin: "load_cbin (stub_externals fs) cbin = Inr (stub_wave, fs)"
  by (simp add: stub_externals_def)

lemma stub_load_notmat: "load_notmat (stub_externals fs) cbin = Inr stub_notmat"
  by (simp add: stub_externals_def)

lemma stub_make_spect:
  "make_spect (stub_externals fs) stub_wave 8000 (window_size stub_params)
     (window_step stub_params) (freq_cutoffs stub_params) = Inr stub_song"
  using make_spect_stub [of fs] by (simp add: stub_params_def)

lemma stub_argmin_onsets:
  "emap (\<lambda>onset. argmin (map (\<lambda>t. \<bar>t - onset\<bar>) stub_times))
     (map (\<lambda>t. t / 1000) (nm_onsets stub_notmat)) = Inr [0, 2, 4]"
  by (simp add: stub_times_def stub_notmat_def argmin_def ebind_def)

lemma stub_argmin_offsets:
  "emap (\<lambda>offset. argmin (map (\<lambda>t. \<bar>t - offset\<bar>) stub_times))
     (map (\<lambda>t. t / 1000) (nm_offsets stub_notmat)) = Inr [1, 3, 5]"
  by (simp add: stub_times_def stub_notmat_def argmin_def ebind_def)

lemma stub_syl_a: "extract_syl stub_spect 0 1 3 = slice_cols stub_spect 0 3"
  by (simp add: extract_syl_def syl_width_diff_def centre_widths_def clamp_widths_def
      py_round_def slice_cols_def slice_index_def stub_spect_def Let_def)

lemma stub_syl_b: "extract_syl stub_spect 4 5 3 = slice_cols stub_spect 3 6"
  by (simp add: extract_syl_def syl_width_diff_def centre_widths_def clamp_widths_def
      py_round_def slice_cols_def slice_index_def stub_spect_def Let_def)

lemma enumerate_as_map: "enumerate 0 xs = map (\<lambda>i. (i, xs ! i)) [0..<length xs]"
  by (rule nth_equalityI) (simp_all add: nth_enumerate_eq)

lemma filter_enumerate_index:
  "map (\<lambda>(ind, l). g ind l) (filter (\<lambda>(ind, l). P l) (enumerate 0 xs))
     = map (\<lambda>i. g i (xs ! i)) (filter (\<lambda>i. P (xs ! i)) [0..<length xs])"
  unfolding enumerate_as_map by (simp add: filter_map comp_def)

lemma extract_syls_Inr_samp_freq:
  assumes "extract_syls ext cbin params labels_to_use w = Inr r"
      and "load_cbin ext cbin = Inr (dat, fs)"
  shows "fs = samp_freq params"
proof (rule ccontr)
  assume "fs \<noteq> samp_freq params"
  then have "extract_syls ext cbin params labels_to_use w
      = Inl (ValueError ''Sampling frequency does not match expected sampling frequency'')"
    unfolding extract_syls_def Let_def by (simp add: assms(2) ebind_Inr)
  with assms(1) show False by simp
qed

lemma extract_syls_unfold:
  assumes lc: "load_cbin ext cbin = Inr (dat, fs)" and fs: "fs = samp_freq params"
      and ms: "make_spect ext dat fs (window_size params) (window_step params)
                 (freq_cutoffs params) = Inr so"
      and nm: "load_notmat ext cbin = Inr nm"
      and otb: "emap (\<lambda>onset. argmin (map (\<lambda>t. \<bar>t - onset\<bar>) (timeBins so)))
                  (map (\<lambda>t. t / 1000) (nm_onsets nm)) = Inr otb"
      and ftb: "emap (\<lambda>offset. argmin (map (\<lambda>t. \<bar>t - offset\<bar>) (timeBins so)))
                  (map (\<lambda>t. t / 1000) (nm_offsets nm)) = Inr ftb"
  shows "extract_syls ext cbin params labels_to_use w
       = syl_loop (spect so) otb ftb (normalise_labels labels_to_use) w
           (enumerate 0 (nm_labels nm))"
  unfolding extract_syls_def Let_def
  by (simp add: lc [unfolded fs] ms [unfolded fs] nm otb ftb ebind_Inr del: syl_loop.simps)

lemma stub_slice_a: "slice_cols stub_spect 0 3 = stub_window_a"
  by (simp add: slice_cols_def slice_index_def py_slice_def stub_spect_def stub_window_a_def)

lemma stub_slice_x: "slice_cols stub_spect 1 4 = stub_window_x"
  by (simp add: slice_cols_def slice_index_def py_slice_def stub_spect_def stub_window_x_def)

lemma stub_slice_b: "slice_cols stub_spect 3 6 = stub_window_b"
  by (simp add: slice_cols_def slice_index_def py_slice_def stub_spect_def stub_window_b_def)

lemma stub_syl_x: "extract_syl stub_spect 2 3 3 = slice_cols stub_spect 1 4"
  by (simp add: extract_syl_def syl_width_diff_def centre_widths_def clamp_widths_def
      py_round_def slice_cols_def slice_index_def stub_spect_def Let_def)

lemma stub_song_fields: "timeBins stub_song = stub_times" "spect stub_song = stub_spect"
  by (simp_all add: stub_song_def)

lemma stub_windows_differ:
  "stub_window_a \<noteq> stub_window_b" "stub_window_a \<noteq> stub_window_x"
  "stub_window_x \<noteq> stub_window_b"
  by (simp_all add: stub_window_a_def stub_window_b_def stub_window_x_def)

lemma stub_onsets_time_bins:
  "emap (\<lambda>onset. argmin (map (\<lambda>t. \<bar>t - onset\<bar>) (timeBins stub_song)))
     (map (\<lambda>t. t / 1000) (nm_onsets stub_notmat)) = Inr [0, 2, 4]"
  unfolding stub_song_fields by (rule stub_argmin_onsets)

lemma stub_offsets_time_bins:
  "emap (\<lambda>offset. argmin (map (\<lambda>t. \<bar>t - offset\<bar>) (timeBins stub_song)))
     (map (\<lambda>t. t / 1000) (nm_offsets stub_notmat)) = Inr [1, 3, 5]"
  unfolding stub_song_fields by (rule stub_argmin_offsets)

lemma stub_samp_freq: "8000 = samp_freq stub_params"
  by (simp add: stub_params_def)

lemma stub_extract_syls_ab:
  "extract_syls (stub_externals 8000) ''bird.cbin'' stub_params (PyStr ''ab'') 3
     = Inr ([stub_window_a, stub_window_b], [Some CHR ''a'', Some CHR ''b''])"
proof -
  have n: "normalise_labels (PyStr ''ab'') = PyList [''a'', ''b'']"
    by (simp add: normalise_labels_def)
  have "syl_loop stub_spect [0, 2, 4] [1, 3, 5] (PyList [''a'', ''b'']) 3
                (enumerate 0 (nm_labels stub_notmat))
      = Inr ([stub_window_a, stub_window_b], [Some CHR ''a'', Some CHR ''b''])"
    by (simp add: stub_notmat_def list_get_def ebind_def stub_syl_a stub_syl_b
        stub_slice_a stub_slice_b)
  then show ?thesis
    unfolding extract_syls_unfold [OF stub_load_cbin stub_samp_freq stub_make_spect
        stub_load_notmat stub_onsets_time_bins stub_offsets_time_bins] n stub_song_fields .
qed

lemma stub_extract_syls_all:
  "extract_syls (stub_externals 8000) ''bird.cbin'' stub_params (PyStr ''all'') 3
     = Inr ([stub_window_a, stub_window_x, stub_window_b], [None, None, None])"
proof -
  have n: "normalise_labels (PyStr ''all'') = PyStr ''all''"
    by (simp add: normalise_labels_def)
  have "syl_loop stub_spect [0, 2, 4] [1, 3, 5] (PyStr ''all'') 3
                (enumerate 0 (nm_labels stub_notmat))
      = Inr ([stub_window_a, stub_window_x, stub_window_b], [None, None, None])"
    by (simp add: stub_notmat_def list_get_def ebind_def stub_syl_a stub_syl_b stub_syl_x
        stub_slice_a stub_slice_b stub_slice_x)
  then show ?thesis
    unfolding extract_syls_unfold [OF stub_load_cbin stub_samp_freq stub_make_spect
        stub_load_notmat stub_onsets_time_bins stub_offsets_time_bins] n stub_song_fields .
qed

subsection \<open>Claims about \<open>extract_syls\<close>\<close>

text \<open>
  Claim C3 (the window of one extracted segment): for onset and offset columns with
  \<open>0 \<le> on \<le> off \<le> columnCount\<close>, the code's \<open>width_diff\<close> is
  \<open>syl_spect_width - (off - on)\<close>; its left and right widths after the \<open>if/elif\<close> are
  those of \<open>spec_widths\<close>, that is \<open>round(width_diff / 2)\<close> and the rest, with at most one
  clamp and the left one first; the emitted array is the slice from \<open>on - left_width\<close> to
  \<open>off + right_width\<close>; and when neither clamp fires (and \<open>syl_spect_width\<close> is not
  negative) it has exactly \<open>syl_spect_width\<close> columns. By \<open>syl_loop_Inr\<close> every array
  that \<open>extract_syls\<close> returns is \<open>extract_syl\<close> of its segment.
\<close>

theorem extract_syl_window:
  assumes on: "0 \<le> on" "on \<le> off" and off: "off \<le> int (shape1 S)"
  shows "syl_width_diff S on off w = w - (off - on)
       \<and> clamp_widths S on off (syl_width_diff S on off w)
            (centre_widths (syl_width_diff S on off w))
           = spec_widths (int (shape1 S)) on off w
       \<and> extract_syl S on off w
           = (case spec_widths (int (shape1 S)) on off w of
                (left_width, right_width) \<Rightarrow> slice_cols S (on - left_width) (off + right_width))
       \<and> (0 \<le> w \<and> \<not> fst (centre_widths (w - (off - on))) > on
            \<and> \<not> off + snd (centre_widths (w - (off - on))) > int (shape1 S)
          \<longrightarrow> int (shape1 (extract_syl S on off w)) = w
              \<and> (wf_arr S \<longrightarrow> wf_arr (extract_syl S on off w)))"
proof -
  have wd: "syl_width_diff S on off w = w - (off - on)"
    using slice_cols_shape1 [OF on off] by (simp add: syl_width_diff_def Let_def)
  have cl: "clamp_widths S on off (syl_width_diff S on off w)
            (centre_widths (syl_width_diff S on off w))
           = spec_widths (int (shape1 S)) on off w"
    unfolding wd by (simp add: clamp_widths_def centre_widths_def spec_widths_def Let_def)
  have ex: "extract_syl S on off w
           = (case spec_widths (int (shape1 S)) on off w of
                (left_width, right_width) \<Rightarrow> slice_cols S (on - left_width) (off + right_width))"
    unfolding extract_syl_def Let_def cl ..
  have nc: "int (shape1 (extract_syl S on off w)) = w
              \<and> (wf_arr S \<longrightarrow> wf_arr (extract_syl S on off w))"
    if w: "0 \<le> w" and l: "\<not> fst (centre_widths (w - (off - on))) > on"
      and r: "\<not> off + snd (centre_widths (w - (off - on))) > int (shape1 S)"
  proof -
    define lw where "lw = fst (centre_widths (w - (off - on)))"
    define rw where "rw = snd (centre_widths (w - (off - on)))"
    have sum: "lw + rw = w - (off - on)"
      by (simp add: lw_def rw_def centre_widths_def Let_def)
    have sw: "spec_widths (int (shape1 S)) on off w = (lw, rw)"
      using l r by (simp add: spec_widths_def centre_widths_def Let_def lw_def rw_def)
    have e: "extract_syl S on off w = slice_cols S (on - lw) (off + rw)"
      by (simp add: ex sw)
    have a: "0 \<le> on - lw" using l by (simp add: lw_def)
    have b: "on - lw \<le> off + rw" using sum w by simp
    have c: "off + rw \<le> int (shape1 S)" using r by (simp add: rw_def)
    have "int (shape1 (slice_cols S (on - lw) (off + rw))) = w"
      using slice_cols_shape1 [OF a b c] sum by simp
    moreover have "wf_arr (slice_cols S (on - lw) (off + rw))" if "wf_arr S"
      using slice_cols_wf [OF a b c that] .
    ultimately show ?thesis by (simp add: e)
  qed
  from wd cl ex nc show ?thesis by blast
qed

theorem extract_syl_window_witness:
  "(0::int) \<le> 4 \<and> (4::int) \<le> 5 \<and> (5::int) \<le> int (shape1 stub_spect)
   \<and> syl_width_diff stub_spect 4 5 3 = 2
   \<and> centre_widths 2 = (1, 1)
   \<and> spec_widths 6 4 5 3 = (1, 1)
   \<and> extract_syl stub_spect 4 5 3 = slice_cols stub_spect 3 6
   \<and> int (shape1 (extract_syl stub_spect 4 5 3)) = 3"
proof -
  have h: "(0::int) \<le> 4" "(4::int) \<le> 5" "(5::int) \<le> int (shape1 stub_spect)"
    by (simp_all add: stub_spect_shape1)
  have c: "centre_widths 2 = (1, 1)"
    by (simp add: centre_widths_def py_round_def)
  have s: "spec_widths 6 4 5 3 = (1, 1)"
    by (simp add: spec_widths_def py_round_def)
  note t = extract_syl_window [OF h, of 3]
  from t have wd: "syl_width_diff stub_spect 4 5 3 = 2" by simp
  from t have e: "extract_syl stub_spect 4 5 3 = slice_cols stub_spect 3 6"
    by (simp add: stub_spect_shape1 s)
  from t c have n: "int (shape1 (extract_syl stub_spect 4 5 3)) = 3"
    by (simp add: stub_spect_shape1 s slice_cols_def slice_index_def)
  from h wd c s e n show ?thesis by blast
qed

text \<open>
  Claim C7 (sampling frequency mismatch): when the decoder returns a sampling frequency
  that differs from \<open>spect_params['samp_freq']\<close>, \<open>extract_syls\<close> raises the ValueError
  of the check, whatever the spectral estimate and the label file would have produced
  (or raised) afterwards; nothing is returned.
\<close>

theorem extract_syls_samp_freq_mismatch:
  assumes "load_cbin ext cbin = Inr (dat, fs)" and "fs \<noteq> samp_freq params"
  shows "extract_syls ext cbin params labels_to_use syl_spect_width =
           Inl (ValueError ''Sampling frequency does not match expected sampling frequency'')"
  using assms unfolding extract_syls_def Let_def by (simp add: ebind_Inr)

theorem extract_syls_samp_freq_mismatch_witness:
  "load_cbin (stub_externals 44100) ''bird.cbin'' = Inr (stub_wave, 44100)
   \<and> (44100::int) \<noteq> samp_freq (stub_params\<lparr>samp_freq := 32000\<rparr>)
   \<and> extract_syls (stub_externals 44100) ''bird.cbin'' (stub_params\<lparr>samp_freq := 32000\<rparr>)
        (PyStr ''all'') 300
      = Inl (ValueError ''Sampling frequency does not match expected sampling frequency'')"
proof -
  have a: "load_cbin (stub_externals 44100) ''bird.cbin'' = Inr (stub_wave, 44100)"
    by (rule stub_load_cbin)
  have b: "(44100::int) \<noteq> samp_freq (stub_params\<lparr>samp_freq := 32000\<rparr>)" by simp
  from extract_syls_samp_freq_mismatch [OF a b] a b show ?thesis by blast
qed

text \<open>
  Claim C8 (label filter): let \<open>extract_syls\<close> return for a string \<open>labels_to_use\<close>,
  with \<open>otb\<close> and \<open>ftb\<close> the onset and offset columns of the segments. For \<open>'all'\<close> the
  result holds, for every segment in order, the window \<open>extract_syl\<close> cuts around that
  segment, each with the label \<open>None\<close>. For any other string the segments extracted are
  exactly those whose label is a character of the string: the k-th array returned is the
  window around the k-th such segment and the k-th label returned is its label, in
  segment order. On the small recording, \<open>'ab'\<close> over the segments a, x, b gives the
  windows of a and b with the labels a and b, and \<open>'all'\<close> gives the three windows.
\<close>

theorem extract_syls_label_filter:
  assumes res: "extract_syls ext cbin params (PyStr s) syl_spect_width = Inr (spects, labs)"
      and lc: "load_cbin ext cbin = Inr (dat, fs)"
      and ms: "make_spect ext dat fs (window_size params) (window_step params)
                 (freq_cutoffs params) = Inr so"
      and nm: "load_notmat ext cbin = Inr nm"
      and otb: "emap (\<lambda>onset. argmin (map (\<lambda>t. \<bar>t - onset\<bar>) (timeBins so)))
                  (map (\<lambda>t. t / 1000) (nm_onsets nm)) = Inr otb"
      and ftb: "emap (\<lambda>offset. argmin (map (\<lambda>t. \<bar>t - offset\<bar>) (timeBins so)))
                  (map (\<lambda>t. t / 1000) (nm_offsets nm)) = Inr ftb"
  shows "length spects = length labs
       \<and> (s = ''all'' \<longrightarrow>
            labs = map (\<lambda>l. None) (nm_labels nm)
          \<and> length spects = length (nm_labels nm)
          \<and> spects = map (\<lambda>i. extract_syl (spect so) (int (otb ! i)) (int (ftb ! i))
                                  syl_spect_width)
                        [0..<length (nm_labels nm)])
       \<and> (s \<noteq> ''all'' \<longrightarrow>
            labs = map Some (filter (\<lambda>l. l \<in> set s) (nm_labels nm))
          \<and> labs = map (\<lambda>i. Some (nm_labels nm ! i))
                      (filter (\<lambda>i. nm_labels nm ! i \<in> set s) [0..<length (nm_labels nm)])
          \<and> spects = map (\<lambda>i. extract_syl (spect so) (int (otb ! i)) (int (ftb ! i))
                                  syl_spect_width)
                        (filter (\<lambda>i. nm_labels nm ! i \<in> set s) [0..<length (nm_labels nm)]))"
proof -
  note fs = extract_syls_Inr_samp_freq [OF res lc]
  from res have loop: "syl_loop (spect so) otb ftb (normalise_labels (PyStr s)) syl_spect_width
             (enumerate 0 (nm_labels nm)) = Inr (spects, labs)"
    unfolding extract_syls_unfold [OF lc fs ms nm otb ftb] .
  note c = syl_loop_Inr [OF loop]
  have len: "length spects = length labs" using c by simp
  show ?thesis
  proof (cases "s = ''all''")
    case True
    then have n: "normalise_labels (PyStr s) = PyStr ''all''" by (simp add: normalise_labels_def)
    have sel: "selected (PyStr ''all'') = (\<lambda>l. True)"
      by (simp add: selected_def fun_eq_iff)
    have ol: "out_label (PyStr ''all'') = (\<lambda>l. None)"
      by (simp add: out_label_def fun_eq_iff)
    have l: "labs = map (\<lambda>l. None) (nm_labels nm)"
      using c unfolding n sel ol
      by (simp add: filter_enumerate_snd [where P = "\<lambda>l. True", simplified])
    have sp: "spects = map (\<lambda>i. extract_syl (spect so) (int (otb ! i)) (int (ftb ! i))
                                  syl_spect_width) [0..<length (nm_labels nm)]"
      using c unfolding n sel
      by (simp add: filter_enumerate_index [where P = "\<lambda>l. True", simplified])
    from len l sp True show ?thesis by simp
  next
    case False
    then have n: "normalise_labels (PyStr s) = PyList (map (\<lambda>c. [c]) s)"
      by (simp add: normalise_labels_def)
    have sel: "selected (PyList (map (\<lambda>c. [c]) s)) = (\<lambda>l. l \<in> set s)"
      by (auto simp: selected_def fun_eq_iff)
    have ol: "out_label (PyList (map (\<lambda>c. [c]) s)) = Some"
      by (auto simp: out_label_def fun_eq_iff)
    have l1: "labs = map Some (filter (\<lambda>l. l \<in> set s) (nm_labels nm))"
      using c unfolding n sel ol by (simp add: filter_enumerate_snd)
    have l2: "labs = map (\<lambda>i. Some (nm_labels nm ! i))
                      (filter (\<lambda>i. nm_labels nm ! i \<in> set s) [0..<length (nm_labels nm)])"
      using c unfolding n sel ol
      by (simp add: filter_enumerate_index [where g = "\<lambda>i l. Some l"])
    have sp: "spects = map (\<lambda>i. extract_syl (spect so) (int (otb ! i)) (int (ftb ! i))
                                  syl_spect_width)
                        (filter (\<lambda>i. nm_labels nm ! i \<in> set s) [0..<length (nm_labels nm)])"
      using c unfolding n sel
      by (simp add: filter_enumerate_index
          [where g = "\<lambda>i l. extract_syl (spect so) (int (otb ! i)) (int (ftb ! i)) syl_spect_width"])
    from len l1 l2 sp False show ?thesis by simp
  qed
qed

theorem extract_syls_label_filter_witness:
  "extract_syls (stub_externals 8000) ''bird.cbin'' stub_params (PyStr ''ab'') 3
     = Inr ([stub_window_a, stub_window_b], [Some CHR ''a'', Some CHR ''b''])
   \<and> extract_syls (stub_externals 8000) ''bird.cbin'' stub_params (PyStr ''all'') 3
     = Inr ([stub_window_a, stub_window_x, stub_window_b], [None, None, None])
   \<and> load_cbin (stub_externals 8000) ''bird.cbin'' = Inr (stub_wave, 8000)
   \<and> make_spect (stub_externals 8000) stub_wave 8000 (window_size stub_params)
       (window_step stub_params) (freq_cutoffs stub_params) = Inr stub_song
   \<and> load_notmat (stub_externals 8000) ''bird.cbin'' = Inr stub_notmat
   \<and> emap (\<lambda>onset. argmin (map (\<lambda>t. \<bar>t - onset\<bar>) (timeBins stub_song)))
        (map (\<lambda>t. t / 1000) (nm_onsets stub_notmat)) = Inr [0, 2, 4]
   \<and> emap (\<lambda>offset. argmin (map (\<lambda>t. \<bar>t - offset\<bar>) (timeBins stub_song)))
        (map (\<lambda>t. t / 1000) (nm_offsets stub_notmat)) = Inr [1, 3, 5]
   \<and> nm_labels stub_notmat = ''axb''
   \<and> ''ab'' \<noteq> ''all''
   \<and> [Some CHR ''a'', Some CHR ''b'']
       = map Some (filter (\<lambda>l. l \<in> set ''ab'') (nm_labels stub_notmat))
   \<and> [stub_window_a, stub_window_b]
       = map (\<lambda>i. extract_syl (spect stub_song) (int ([0, 2, 4] ! i)) (int ([1, 3, 5] ! i)) 3)
           (filter (\<lambda>i. nm_labels stub_notmat ! i \<in> set ''ab'')
              [0..<length (nm_labels stub_notmat)])
   \<and> [None, None, None] = map (\<lambda>l. None :: char option) (nm_labels stub_notmat)
   \<and> [stub_window_a, stub_window_x, stub_window_b]
       = map (\<lambda>i. extract_syl (spect stub_song) (int ([0, 2, 4] ! i)) (int ([1, 3, 5] ! i)) 3)
           [0..<length (nm_labels stub_notmat)]
   \<and> stub_window_a \<noteq> stub_window_b \<and> stub_window_a \<noteq> stub_window_x
   \<and> stub_window_x \<noteq> stub_window_b"
proof -
  note h = stub_load_cbin [of 8000 "''bird.cbin''"] stub_make_spect [of 8000]
    stub_load_notmat [of 8000 "''bird.cbin''"] stub_onsets_time_bins stub_offsets_time_bins
  have l: "nm_labels stub_notmat = ''axb''" by (simp add: stub_notmat_def)
  have ne: "''ab'' \<noteq> ''all''" by simp
  note t1 = extract_syls_label_filter [OF stub_extract_syls_ab h]
  note t2 = extract_syls_label_filter [OF stub_extract_syls_all h]
  from t1 ne have a1: "[Some CHR ''a'', Some CHR ''b'']
       = map Some (filter (\<lambda>l. l \<in> set ''ab'') (nm_labels stub_notmat))"
    and a2: "[stub_window_a, stub_window_b]
       = map (\<lambda>i. extract_syl (spect stub_song) (int ([0, 2, 4] ! i)) (int ([1, 3, 5] ! i)) 3)
           (filter (\<lambda>i. nm_labels stub_notmat ! i \<in> set ''ab'')
              [0..<length (nm_labels stub_notmat)])"
    by blast+
  from t2 have b1: "[None, None, None] = map (\<lambda>l. None :: char option) (nm_labels stub_notmat)"
    and b2: "[stub_window_a, stub_window_x, stub_window_b]
       = map (\<lambda>i. extract_syl (spect stub_song) (int ([0, 2, 4] ! i)) (int ([1, 3, 5] ! i)) 3)
           [0..<length (nm_labels stub_notmat)]"
    by blast+
  from stub_extract_syls_ab stub_extract_syls_all h l ne a1 a2 b1 b2 stub_windows_differ
  show ?thesis by blast
qed

text \<open>
  Claim C10 (a list as \<open>labels_to_use\<close>): for a list argument no error comes from the
  argument check. Whenever the recording decodes with the expected sampling frequency,
  \<open>make_spect\<close> returns at least one time bin and the label file has an onset and an
  offset for every label, \<open>extract_syls\<close> returns, and the labels returned are the
  segment labels that are members of the list itself.
\<close>

theorem extract_syls_list_argument:
  assumes lc: "load_cbin ext cbin = Inr (dat, fs)" and fs: "fs = samp_freq params"
      and ms: "make_spect ext dat fs (window_size params) (window_step params)
                 (freq_cutoffs params) = Inr so"
      and nm: "load_notmat ext cbin = Inr nm"
      and tb: "timeBins so \<noteq> []"
      and lens: "length (nm_labels nm) \<le> length (nm_onsets nm)"
                "length (nm_labels nm) \<le> length (nm_offsets nm)"
  shows "\<exists>spects. extract_syls ext cbin params (PyList xs) syl_spect_width =
           Inr (spects, map Some (filter (\<lambda>l. [l] \<in> set xs) (nm_labels nm)))
         \<and> length spects = length (filter (\<lambda>l. [l] \<in> set xs) (nm_labels nm))"
proof -
  let ?f = "\<lambda>t0. argmin (map (\<lambda>t. \<bar>t - t0\<bar>) (timeBins so))"
  from emap_total [of "map (\<lambda>t. t / 1000) (nm_onsets nm)" ?f] tb
  obtain otb where otb: "emap ?f (map (\<lambda>t. t / 1000) (nm_onsets nm)) = Inr otb"
    and lo: "length otb = length (nm_onsets nm)"
    using argmin_total by fastforce
  from emap_total [of "map (\<lambda>t. t / 1000) (nm_offsets nm)" ?f] tb
  obtain ftb where ftb: "emap ?f (map (\<lambda>t. t / 1000) (nm_offsets nm)) = Inr ftb"
    and lf: "length ftb = length (nm_offsets nm)"
    using argmin_total by fastforce
  have n: "normalise_labels (PyList xs) = PyList xs" by (simp add: normalise_labels_def)
  have "ind < length otb \<and> ind < length ftb" if "(ind, l) \<in> set (enumerate 0 (nm_labels nm))"
    for ind l
    using that lens lo lf by (auto simp: in_set_enumerate_eq)
  from syl_loop_total [of "enumerate 0 (nm_labels nm)" otb ftb "spect so" "PyList xs"
      syl_spect_width, OF this]
  obtain spects labs where loop: "syl_loop (spect so) otb ftb (PyList xs) syl_spect_width
      (enumerate 0 (nm_labels nm)) = Inr (spects, labs)"
    by fastforce
  have sel: "selected (PyList xs) = (\<lambda>l. [l] \<in> set xs)"
    by (auto simp: selected_def fun_eq_iff)
  have ol: "out_label (PyList xs) = Some"
    by (auto simp: out_label_def fun_eq_iff)
  note c = syl_loop_Inr [OF loop]
  have len: "length spects = length labs" using c by simp
  have labs: "labs = map Some (filter (\<lambda>l. [l] \<in> set xs) (nm_labels nm))"
    using c unfolding sel ol by (simp add: filter_enumerate_snd)
  have "extract_syls ext cbin params (PyList xs) syl_spect_width = Inr (spects, labs)"
    unfolding extract_syls_def Let_def n
    by (simp add: lc [unfolded fs] ms [unfolded fs] nm otb ftb loop ebind_Inr)
  with labs len show ?thesis by simp
qed

theorem extract_syls_list_argument_witness:
  "load_cbin (stub_externals 8000) ''bird.cbin'' = Inr (stub_wave, 8000)
   \<and> 8000 = samp_freq stub_params
   \<and> make_spect (stub_externals 8000) stub_wave 8000 (window_size stub_params)
       (window_step stub_params) (freq_cutoffs stub_params) = Inr stub_song
   \<and> load_notmat (stub_externals 8000) ''bird.cbin'' = Inr stub_notmat
   \<and> timeBins stub_song \<noteq> []
   \<and> length (nm_labels stub_notmat) \<le> length (nm_onsets stub_notmat)
   \<and> length (nm_labels stub_notmat) \<le> length (nm_offsets stub_notmat)
   \<and> (\<exists>spects. extract_syls (stub_externals 8000) ''bird.cbin'' stub_params
          (PyList [''a'', ''b'']) 3 = Inr (spects, map Some ''ab'')
        \<and> length spects = length ''ab'')"
proof -
  have fs: "8000 = samp_freq stub_params" by (simp add: stub_params_def)
  have tb: "timeBins stub_song \<noteq> []" by (simp add: stub_song_def stub_times_def)
  have l1: "length (nm_labels stub_notmat) \<le> length (nm_onsets stub_notmat)"
    and l2: "length (nm_labels stub_notmat) \<le> length (nm_offsets stub_notmat)"
    by (simp_all add: stub_notmat_def)
  have f: "filter (\<lambda>l. [l] \<in> set [''a'', ''b'']) (nm_labels stub_notmat) = ''ab''"
    by (simp add: stub_notmat_def)
  from extract_syls_list_argument [where xs = "[''a'', ''b'']" and syl_spect_width = 3,
      OF stub_load_cbin [of 8000 "''bird.cbin''"] fs stub_make_spect [of 8000]
        stub_load_notmat [of 8000 "''bird.cbin''"] tb l1 l2]
  have "\<exists>spects. extract_syls (stub_externals 8000) ''bird.cbin'' stub_params
          (PyList [''a'', ''b'']) 3 = Inr (spects, map Some ''ab'')
        \<and> length spects = length ''ab''"
    unfolding f .
  with stub_load_cbin [of 8000 "''bird.cbin''"] fs stub_make_spect [of 8000]
    stub_load_notmat [of 8000 "''bird.cbin''"] tb l1 l2
  show ?thesis by blast
qed

end
